theory Spec2Isabelle
  imports Main "HOL-Library.AList"
begin

section \<open>Strings as the procedure code uses them\<close>

text \<open>
  A JavaScript string is modelled as a \<^typ>\<open>string\<close>, one \<^typ>\<open>char\<close> per code unit
  (code units below 256). The functions below are the string primitives that
  \<^verbatim>\<open>createAllInputs_\<close> calls: \<^verbatim>\<open>trim\<close>, \<^verbatim>\<open>substring\<close>,
  \<^verbatim>\<open>split\<close> on the look-ahead \<^verbatim>\<open>/(?=[^\\]%[nbs])/\<close> and \<^verbatim>\<open>replace\<close> of the
  first \<^verbatim>\<open>\%\<close>.
\<close>

definition backslash :: char where
  "backslash = CHR 0x5C"

definition percent :: char where
  "percent = CHR ''%''"

text \<open>White space removed by \<^verbatim>\<open>String.prototype.trim\<close>, among the code units below 256.\<close>

definition isWhite :: "char \<Rightarrow> bool" where
  "isWhite c = (c \<in> set [CHR 0x09, CHR 0x0A, CHR 0x0B, CHR 0x0C, CHR 0x0D, CHR 0x20, CHR 0xA0])"

definition trim :: "string \<Rightarrow> string" where
  "trim s = rev (dropWhile isWhite (rev (dropWhile isWhite s)))"

text \<open>\<^verbatim>\<open>s.substring(i, j)\<close> for \<open>i \<le> j\<close>, and \<^verbatim>\<open>s.substring(i)\<close>.\<close>

definition substring :: "string \<Rightarrow> nat \<Rightarrow> nat \<Rightarrow> string" where
  "substring s i j = take (j - i) (drop i s)"

definition substringFrom :: "string \<Rightarrow> nat \<Rightarrow> string" where
  "substringFrom s i = drop i s"

text \<open>
  The regular expression \<^verbatim>\<open>[^\\]%[nbs]\<close> matched at the start of the remaining text:
  any code unit but a backslash, then \<^verbatim>\<open>%\<close>, then one of \<^verbatim>\<open>n\<close>, \<^verbatim>\<open>b\<close>, \<^verbatim>\<open>s\<close>.
\<close>

fun markerAt :: "string \<Rightarrow> bool" where
  "markerAt (c # p # t # rest) =
     (c \<noteq> backslash \<and> p = percent \<and> (t = CHR ''n'' \<or> t = CHR ''b'' \<or> t = CHR ''s''))"
| "markerAt _ = False"

text \<open>
  \<^verbatim>\<open>String.prototype.split\<close> with a zero-width separator: the scan cuts before
  every position where the look-ahead matches, except where the piece collected so far
  is empty (a match at the start of a piece is skipped). The first argument is the
  piece collected so far.
\<close>

fun splitFrom :: "string \<Rightarrow> string \<Rightarrow> string list" where
  "splitFrom cur [] = [cur]"
| "splitFrom cur (c # rest) =
     (if cur \<noteq> [] \<and> markerAt (c # rest) then cur # splitFrom [c] rest
      else splitFrom (cur @ [c]) rest)"

definition split :: "string \<Rightarrow> string list" where
  "split s = splitFrom [] s"

text \<open>\<^verbatim>\<open>procCode_.split(...).map(c => c.trim())\<close>\<close>

definition procComponents :: "string \<Rightarrow> string list" where
  "procComponents procCode = map trim (split procCode)"

text \<open>\<^verbatim>\<open>text.replace(/\\%/, "%")\<close>: only the first escaped percent is unescaped.\<close>

fun replaceEscaped :: "string \<Rightarrow> string" where
  "replaceEscaped (c # p # rest) =
     (if c = backslash \<and> p = percent then percent # rest else c # replaceEscaped (p # rest))"
| "replaceEscaped s = s"

section \<open>Blocks, inputs and the connection map\<close>

text \<open>
  The host toolkit owns blocks, inputs and connections; the procedure code only calls
  its operations. A workspace is a store of blocks addressed by a number, with a supply
  of fresh addresses for \<^verbatim>\<open>workspace.newBlock\<close>. A block carries what the procedure
  code reads and writes: its type, its shadow flag, its field values and whether it has
  been disposed.

  The workspace also owns the connection checker. The procedure code does not
  configure it (\<^verbatim>\<open>ScratchConnectionChecker\<close> only refines the checks made while
  dragging), so it is a component of the workspace: \<open>canConnect ws c t s\<close> is its
  answer for plugging a block of type \<open>t\<close> with shadow flag \<open>s\<close>, saved from before a
  mutation, into a new value input of the block under mutation whose check is \<open>c\<close>.
\<close>

record block =
  btype :: string
  isShadow :: bool
  fieldValue :: "string \<rightharpoonup> string"
  disposed :: bool

record workspace =
  blocks :: "nat \<Rightarrow> block"
  nextId :: nat
  canConnect :: "string option \<Rightarrow> string \<Rightarrow> bool \<Rightarrow> bool"

text \<open>The element built by \<^verbatim>\<open>buildShadowDom_\<close>: a shadow with one field.\<close>

record shadowDom =
  shadowType :: string
  fieldName :: string
  fieldText :: string

text \<open>
  A value input has a name, an optional type check, and a connection with its target
  block and shadow DOM. A dummy input has no connection and shows one field; the
  procedure code never reads its name.
\<close>

record valueInput =
  name :: string
  check :: "string option"
  targetBlock :: "nat option"
  getShadowDom :: "shadowDom option"

datatype input = VALUE valueInput | DUMMY string

text \<open>
  \<^verbatim>\<open>ConnectionMap\<close>: argument ID to the saved block and shadow DOM, or to \<^verbatim>\<open>null\<close>
  (\<open>None\<close>) once the entry has been reclaimed. The keys keep their insertion order, as
  \<^verbatim>\<open>for (const id in connectionMap)\<close> visits them.
\<close>

record saveInfo =
  shadow :: "shadowDom option"
  block :: "nat option"

type_synonym connectionMap = "(string \<times> saveInfo option) list"

datatype role = Call | Prototype | Declaration

text \<open>
  The three procedure blocks share their data; \<open>role\<close> says which implementation of
  \<^verbatim>\<open>populateArgument_\<close> and \<^verbatim>\<open>addProcedureLabel_\<close> the block's \<^verbatim>\<open>init\<close> has bound.
  \<^verbatim>\<open>generateShadows_\<close> is only ever tested for truthiness, so \<^verbatim>\<open>null\<close> is \<open>False\<close>.
\<close>

record procedureBlock =
  role :: role
  procCode :: string
  argumentIds :: "string list"
  displayNames :: "string list"
  argumentDefaults :: "string list"
  warp :: bool
  generateShadows :: bool
  inputList :: "input list"

datatype error =
  InvalidType string  \<comment> \<open>"Found an custom procedure with an invalid type: " + argumentType\<close>
| TypeError           \<comment> \<open>reading a property of \<^verbatim>\<open>null\<close>\<close>
| EmptyInputName      \<comment> \<open>the host: "Value inputs must have a non-empty name"\<close>

definition NUMBER :: string where "NUMBER = ''n''"
definition STRING :: string where "STRING = ''s''"
definition BOOLEAN :: string where "BOOLEAN = ''b''"

subsection \<open>Host operations\<close>

text \<open>\<^verbatim>\<open>workspace.newBlock(type)\<close>, with the initial field text of that block type.\<close>

definition initialFields :: "string \<Rightarrow> (string \<rightharpoonup> string)" where
  "initialFields t =
     (if t = ''argument_reporter_boolean'' \<or> t = ''argument_reporter_string_number''
      then [''VALUE'' \<mapsto> '''']
      else if t = ''argument_editor_boolean'' \<or> t = ''argument_editor_string_number''
      then [''TEXT'' \<mapsto> ''foo'']
      else Map.empty)"

definition newBlock :: "string \<Rightarrow> workspace \<Rightarrow> nat \<times> workspace" where
  "newBlock t ws =
     (nextId ws,
      ws\<lparr>blocks := (blocks ws)(nextId ws :=
            \<lparr>btype = t, isShadow = False, fieldValue = initialFields t, disposed = False\<rparr>),
         nextId := Suc (nextId ws)\<rparr>)"

text \<open>
  \<^verbatim>\<open>block.setFieldValue(value, name)\<close>. An array read out of range hands it
  \<^verbatim>\<open>undefined\<close> (\<open>None\<close>), which the host's text fields reject, keeping the old text.
\<close>

definition setFieldValue :: "nat \<Rightarrow> string option \<Rightarrow> string \<Rightarrow> workspace \<Rightarrow> workspace" where
  "setFieldValue b v f ws =
     (case v of
        None \<Rightarrow> ws
      | Some txt \<Rightarrow>
          ws\<lparr>blocks := (blocks ws)(b := (blocks ws b)\<lparr>fieldValue := (fieldValue (blocks ws b))(f \<mapsto> txt)\<rparr>)\<rparr>)"

definition setShadow :: "nat \<Rightarrow> bool \<Rightarrow> workspace \<Rightarrow> workspace" where
  "setShadow b v ws = ws\<lparr>blocks := (blocks ws)(b := (blocks ws b)\<lparr>isShadow := v\<rparr>)\<rparr>"

definition dispose :: "nat \<Rightarrow> workspace \<Rightarrow> workspace" where
  "dispose b ws = ws\<lparr>blocks := (blocks ws)(b := (blocks ws b)\<lparr>disposed := True\<rparr>)\<rparr>"

text \<open>\<^verbatim>\<open>array[i]\<close>: \<^verbatim>\<open>undefined\<close> out of range.\<close>

definition at :: "'a list \<Rightarrow> nat \<Rightarrow> 'a option" where
  "at xs i = (if i < length xs then Some (xs ! i) else None)"

section \<open>The mutation synchronizer\<close>

subsection \<open>Phases 1 and 2: disconnecting and clearing\<close>

text \<open>
  \<^verbatim>\<open>disconnectOldBlocks_\<close>: every input with a connection gets an entry in the map (also
  when nothing is attached), and its target is disconnected. The inputs come back with
  their connections emptied.
\<close>

fun disconnectOldBlocksLoop :: "input list \<Rightarrow> connectionMap \<Rightarrow> input list \<times> connectionMap" where
  "disconnectOldBlocksLoop [] connectionMap = ([], connectionMap)"
| "disconnectOldBlocksLoop (DUMMY text # rest) connectionMap =
     (let (rest', cm') = disconnectOldBlocksLoop rest connectionMap
      in (DUMMY text # rest', cm'))"
| "disconnectOldBlocksLoop (VALUE inp # rest) connectionMap =
     (let target = targetBlock inp;
          saveInfo = \<lparr>shadow = getShadowDom inp, block = target\<rparr>;
          connectionMap1 = AList.update (name inp) (Some saveInfo) connectionMap;
          (rest', cm') = disconnectOldBlocksLoop rest connectionMap1
      in (VALUE (inp\<lparr>targetBlock := None\<rparr>) # rest', cm'))"

definition disconnectOldBlocks :: "procedureBlock \<Rightarrow> procedureBlock \<times> connectionMap" where
  "disconnectOldBlocks this =
     (let (inputs, connectionMap) = disconnectOldBlocksLoop (inputList this) []
      in (this\<lparr>inputList := inputs\<rparr>, connectionMap))"

definition removeAllInputs :: "procedureBlock \<Rightarrow> procedureBlock" where
  "removeAllInputs this = this\<lparr>inputList := []\<rparr>"

subsection \<open>Shadows, reporters and editors\<close>

definition buildShadowDom :: "string \<Rightarrow> shadowDom" where
  "buildShadowDom type =
     (if type = NUMBER
      then \<lparr>shadowType = ''math_number'', fieldName = ''NUM'', fieldText = ''1''\<rparr>
      else \<lparr>shadowType = ''text'', fieldName = ''TEXT'', fieldText = ''''\<rparr>)"

text \<open>\<^verbatim>\<open>attachShadow_\<close> returns the input with the new shadow block connected, if any.\<close>

definition attachShadow :: "valueInput \<Rightarrow> string \<Rightarrow> workspace \<Rightarrow> valueInput \<times> workspace" where
  "attachShadow inp argumentType ws =
     (if argumentType = NUMBER \<or> argumentType = STRING then
        let blockType = (if argumentType = NUMBER then ''math_number'' else ''text'');
            (newB, ws1) = newBlock blockType ws;
            ws2 = (if argumentType = NUMBER
                   then setFieldValue newB (Some ''1'') ''NUM'' ws1
                   else setFieldValue newB (Some '''') ''TEXT'' ws1);
            ws3 = setShadow newB True ws2
        in (inp\<lparr>targetBlock := Some newB\<rparr>, ws3)
      else (inp, ws))"

definition createArgumentReporter :: "string \<Rightarrow> string option \<Rightarrow> workspace \<Rightarrow> nat \<times> workspace" where
  "createArgumentReporter argumentType displayName ws =
     (let blockType = (if argumentType = NUMBER \<or> argumentType = STRING
                       then ''argument_reporter_string_number''
                       else ''argument_reporter_boolean'');
          (newB, ws1) = newBlock blockType ws;
          ws2 = setShadow newB True ws1;
          ws3 = setFieldValue newB displayName ''VALUE'' ws2
      in (newB, ws3))"

definition createArgumentEditor :: "string \<Rightarrow> string option \<Rightarrow> workspace \<Rightarrow> nat \<times> workspace" where
  "createArgumentEditor argumentType displayName ws =
     (let (newB, ws1) =
            (if argumentType = NUMBER \<or> argumentType = STRING
             then newBlock ''argument_editor_string_number'' ws
             else newBlock ''argument_editor_boolean'' ws);
          ws2 = setFieldValue newB displayName ''TEXT'' ws1;
          ws3 = setShadow newB True ws2
      in (newB, ws3))"

definition checkOldTypeMatches :: "nat option \<Rightarrow> string \<Rightarrow> workspace \<Rightarrow> bool" where
  "checkOldTypeMatches oldBlock type ws =
     (case oldBlock of
        None \<Rightarrow> False
      | Some b \<Rightarrow>
          if (type = NUMBER \<or> type = STRING) \<and>
             btype (blocks ws b) = ''argument_reporter_string_number'' then True
          else if type = BOOLEAN \<and> btype (blocks ws b) = ''argument_reporter_boolean'' then True
          else False)"

subsection \<open>Phase 3: the populate policies\<close>

text \<open>
  \<^verbatim>\<open>connection.connect\<close> of the host asks the workspace's connection checker and does
  nothing when it refuses; the procedure code does not look at the result.
\<close>

definition connect :: "valueInput \<Rightarrow> nat \<Rightarrow> workspace \<Rightarrow> valueInput" where
  "connect inp b ws =
     (if canConnect ws (check inp) (btype (blocks ws b)) (isShadow (blocks ws b))
      then inp\<lparr>targetBlock := Some b\<rparr> else inp)"

text \<open>
  The shadow block that the host builds from a shadow DOM, and \<^verbatim>\<open>setShadowDom\<close> of the
  host: it stores the DOM; on an empty connection it attaches a new shadow built from
  it; an attached shadow is disposed and replaced by a new one; beside an attached
  block that is no shadow, the shadow is built once, to be serialized, and disposed.
\<close>

definition createShadowBlock :: "shadowDom \<Rightarrow> workspace \<Rightarrow> nat \<times> workspace" where
  "createShadowBlock d ws =
     (let (newB, ws1) = newBlock (shadowType d) ws;
          ws2 = setFieldValue newB (Some (fieldText d)) (fieldName d) ws1;
          ws3 = setShadow newB True ws2
      in (newB, ws3))"

definition setShadowDom :: "valueInput \<Rightarrow> shadowDom \<Rightarrow> workspace \<Rightarrow> valueInput \<times> workspace" where
  "setShadowDom inp d ws =
     (case targetBlock inp of
        None \<Rightarrow>
          (let (newB, ws1) = createShadowBlock d ws
           in (inp\<lparr>targetBlock := Some newB, getShadowDom := Some d\<rparr>, ws1))
      | Some target \<Rightarrow>
          if isShadow (blocks ws target)
          then (let (newB, ws1) = createShadowBlock d (dispose target ws)
                in (inp\<lparr>targetBlock := Some newB, getShadowDom := Some d\<rparr>, ws1))
          else (let (newB, ws1) = createShadowBlock d ws
                in (inp\<lparr>getShadowDom := Some d\<rparr>, dispose newB ws1)))"

text \<open>
  Each policy receives the input just appended and returns it with its connection
  filled; the caller stores it back, as the source shares the input object by
  reference. \<^verbatim>\<open>id in connectionMap\<close> with a \<^verbatim>\<open>null\<close> entry makes
  \<^verbatim>\<open>saveInfo["block"]\<close> throw. A saved block is connected through the connection
  checker. The blocks that the policies create are shadows whose output the new input
  accepts, so their connection is made.
\<close>

definition populateArgumentOnCaller ::
  "procedureBlock \<Rightarrow> string \<Rightarrow> nat \<Rightarrow> connectionMap \<Rightarrow> string \<Rightarrow> valueInput \<Rightarrow> workspace
   \<Rightarrow> error option \<times> connectionMap \<times> valueInput \<times> workspace" where
  "populateArgumentOnCaller this type index connectionMap ident inp ws =
     (case map_of connectionMap ident of
        Some None \<Rightarrow> (Some TypeError, connectionMap, inp, ws)
      | found \<Rightarrow>
          let oldBlock = (case found of Some (Some saved) \<Rightarrow> block saved | _ \<Rightarrow> None);
              oldShadow = (case found of Some (Some saved) \<Rightarrow> shadow saved | _ \<Rightarrow> None)
          in (case oldBlock of
                Some old \<Rightarrow>
                  let connectionMap1 = AList.update (name inp) None connectionMap;
                      inp1 = connect inp old ws
                  in if type \<noteq> BOOLEAN \<and> generateShadows this
                     then (let shadowDom = (case oldShadow of Some d \<Rightarrow> d
                                            | None \<Rightarrow> buildShadowDom type);
                               (inp2, ws1) = setShadowDom inp1 shadowDom ws
                           in (None, connectionMap1, inp2, ws1))
                     else (None, connectionMap1, inp1, ws)
              | None \<Rightarrow>
                  if generateShadows this
                  then (let (inp1, ws1) = attachShadow inp type ws
                        in (None, connectionMap, inp1, ws1))
                  else (None, connectionMap, inp, ws)))"

definition populateArgumentOnPrototype ::
  "procedureBlock \<Rightarrow> string \<Rightarrow> nat \<Rightarrow> connectionMap \<Rightarrow> string \<Rightarrow> valueInput \<Rightarrow> workspace
   \<Rightarrow> error option \<times> connectionMap \<times> valueInput \<times> workspace" where
  "populateArgumentOnPrototype this type index connectionMap ident inp ws =
     (case map_of connectionMap ident of
        Some None \<Rightarrow> (Some TypeError, connectionMap, inp, ws)
      | found \<Rightarrow>
          let oldBlock = (case found of Some (Some saved) \<Rightarrow> block saved | _ \<Rightarrow> None);
              oldTypeMatches = checkOldTypeMatches oldBlock type ws;
              displayName = at (displayNames this) index
          in (case oldBlock of
                Some old \<Rightarrow>
                  if oldTypeMatches
                  then (let ws1 = setFieldValue old displayName ''VALUE'' ws
                        in (None, AList.update (name inp) None connectionMap,
                            connect inp old ws1, ws1))
                  else (let (argumentReporter, ws1) = createArgumentReporter type displayName ws
                        in (None, connectionMap, inp\<lparr>targetBlock := Some argumentReporter\<rparr>, ws1))
              | None \<Rightarrow>
                  (let (argumentReporter, ws1) = createArgumentReporter type displayName ws
                   in (None, connectionMap, inp\<lparr>targetBlock := Some argumentReporter\<rparr>, ws1))))"

definition populateArgumentOnDeclaration ::
  "procedureBlock \<Rightarrow> string \<Rightarrow> nat \<Rightarrow> connectionMap \<Rightarrow> string \<Rightarrow> valueInput \<Rightarrow> workspace
   \<Rightarrow> error option \<times> connectionMap \<times> valueInput \<times> workspace" where
  "populateArgumentOnDeclaration this type index connectionMap ident inp ws =
     (case map_of connectionMap ident of
        Some None \<Rightarrow> (Some TypeError, connectionMap, inp, ws)
      | found \<Rightarrow>
          let oldBlock = (case found of Some (Some saved) \<Rightarrow> block saved | _ \<Rightarrow> None);
              oldTypeMatches = checkOldTypeMatches oldBlock type ws;
              displayName = at (displayNames this) index
          in (case oldBlock of
                Some old \<Rightarrow>
                  if oldTypeMatches
                  then (let ws1 = setFieldValue old displayName ''TEXT'' ws
                        in (None, AList.update (name inp) None connectionMap,
                            connect inp old ws1, ws1))
                  else (let (argumentEditor, ws1) = createArgumentEditor type displayName ws
                        in (None, connectionMap, inp\<lparr>targetBlock := Some argumentEditor\<rparr>, ws1))
              | None \<Rightarrow>
                  (let (argumentEditor, ws1) = createArgumentEditor type displayName ws
                   in (None, connectionMap, inp\<lparr>targetBlock := Some argumentEditor\<rparr>, ws1))))"

text \<open>The implementation bound by the block's \<^verbatim>\<open>init\<close>.\<close>

definition populateArgument ::
  "procedureBlock \<Rightarrow> string \<Rightarrow> nat \<Rightarrow> connectionMap \<Rightarrow> string \<Rightarrow> valueInput \<Rightarrow> workspace
   \<Rightarrow> error option \<times> connectionMap \<times> valueInput \<times> workspace" where
  "populateArgument this =
     (case role this of
        Call \<Rightarrow> populateArgumentOnCaller this
      | Prototype \<Rightarrow> populateArgumentOnPrototype this
      | Declaration \<Rightarrow> populateArgumentOnDeclaration this)"

text \<open>
  The labels. A dummy input records the text that the procedure code hands to
  \<^verbatim>\<open>appendField\<close>, or to the label editor; what the host's field makes of that text
  when it displays it is not part of the record.
\<close>

definition addLabelField :: "procedureBlock \<Rightarrow> string \<Rightarrow> procedureBlock" where
  "addLabelField this text = this\<lparr>inputList := inputList this @ [DUMMY text]\<rparr>"

definition addLabelEditor :: "procedureBlock \<Rightarrow> string \<Rightarrow> procedureBlock" where
  "addLabelEditor this text =
     (if text \<noteq> [] then this\<lparr>inputList := inputList this @ [DUMMY text]\<rparr> else this)"

definition addProcedureLabel :: "procedureBlock \<Rightarrow> string \<Rightarrow> procedureBlock" where
  "addProcedureLabel this =
     (case role this of
        Call \<Rightarrow> addLabelField this
      | Prototype \<Rightarrow> addLabelField this
      | Declaration \<Rightarrow> addLabelEditor this)"

text \<open>
  \<^verbatim>\<open>appendValueInput(id)\<close> for a name that the host accepts, then
  \<^verbatim>\<open>setCheck("Boolean")\<close> for a Boolean argument. The host throws for a name that is
  \<^verbatim>\<open>undefined\<close> or empty; the rebuild loop below has that branch, before the input is
  built.
\<close>

definition appendValueInput :: "string \<Rightarrow> string \<Rightarrow> valueInput" where
  "appendValueInput ident argumentType =
     \<lparr>name = ident,
      check = (if argumentType = BOOLEAN then Some ''Boolean'' else None),
      targetBlock = None, getShadowDom = None\<rparr>"

subsection \<open>Phase 3: the rebuild loop, and phase 4\<close>

text \<open>
  The loop of \<^verbatim>\<open>createAllInputs_\<close> over the components, with \<^verbatim>\<open>argumentCount\<close>.
  \<^verbatim>\<open>this.argumentIds_[argumentCount]\<close> is \<^verbatim>\<open>undefined\<close> out of range, and
  \<^verbatim>\<open>appendValueInput\<close> throws for it as for the empty string.
  A throw leaves the block, the map and the workspace as they are at that moment.
  (The names of the source lose their trailing underscore here.)
\<close>

fun createAllInputsLoop ::
  "string list \<Rightarrow> nat \<Rightarrow> connectionMap \<Rightarrow> procedureBlock \<Rightarrow> workspace
   \<Rightarrow> error option \<times> connectionMap \<times> procedureBlock \<times> workspace" where
  "createAllInputsLoop [] argumentCount connectionMap this ws = (None, connectionMap, this, ws)"
| "createAllInputsLoop (component # rest) argumentCount connectionMap this ws =
     (if substring component 0 1 = ''%'' then
        let argumentType = substring component 1 2 in
        if \<not> (argumentType = NUMBER \<or> argumentType = BOOLEAN \<or> argumentType = STRING)
        then (Some (InvalidType argumentType), connectionMap, this, ws)
        else
          let labelText = trim (substringFrom component 2) in
          (case at (argumentIds this) argumentCount of
             None \<Rightarrow> (Some EmptyInputName, connectionMap, this, ws)
           | Some ident \<Rightarrow>
               if ident = [] then (Some EmptyInputName, connectionMap, this, ws)
               else
                 let inp = appendValueInput ident argumentType
                 in (case populateArgument this argumentType argumentCount connectionMap ident inp ws of
                       (Some e, connectionMap1, inp1, ws1) \<Rightarrow>
                         (Some e, connectionMap1, this\<lparr>inputList := inputList this @ [VALUE inp1]\<rparr>, ws1)
                     | (None, connectionMap1, inp1, ws1) \<Rightarrow>
                         createAllInputsLoop rest (Suc argumentCount) connectionMap1
                           (addProcedureLabel (this\<lparr>inputList := inputList this @ [VALUE inp1]\<rparr>)
                              (replaceEscaped labelText))
                           ws1))
      else
        createAllInputsLoop rest argumentCount connectionMap
          (addProcedureLabel this (replaceEscaped (trim component))) ws)"

definition createAllInputs ::
  "procedureBlock \<Rightarrow> connectionMap \<Rightarrow> workspace
   \<Rightarrow> error option \<times> connectionMap \<times> procedureBlock \<times> workspace" where
  "createAllInputs this connectionMap ws =
     createAllInputsLoop (procComponents (procCode this)) 0 connectionMap this ws"

text \<open>\<^verbatim>\<open>deleteShadows_\<close>: the keys are visited in order; a saved shadow block is disposed.\<close>

fun deleteShadowsLoop :: "string list \<Rightarrow> connectionMap \<Rightarrow> workspace \<Rightarrow> connectionMap \<times> workspace" where
  "deleteShadowsLoop [] connectionMap ws = (connectionMap, ws)"
| "deleteShadowsLoop (ident # rest) connectionMap ws =
     (case map_of connectionMap ident of
        Some (Some saved) \<Rightarrow>
          (case block saved of
             Some b \<Rightarrow>
               if isShadow (blocks ws b)
               then deleteShadowsLoop rest (AList.update ident None connectionMap) (dispose b ws)
               else deleteShadowsLoop rest connectionMap ws
           | None \<Rightarrow> deleteShadowsLoop rest connectionMap ws)
      | _ \<Rightarrow> deleteShadowsLoop rest connectionMap ws)"

definition deleteShadows :: "connectionMap \<Rightarrow> workspace \<Rightarrow> connectionMap \<times> workspace" where
  "deleteShadows connectionMap ws = deleteShadowsLoop (map fst connectionMap) connectionMap ws"

text \<open>
  \<^verbatim>\<open>updateDisplay_\<close>: the four phases in the order of the source. An error of phase 3
  propagates, so phase 4 does not run.
\<close>

definition updateDisplay :: "procedureBlock \<Rightarrow> workspace \<Rightarrow> error option \<times> procedureBlock \<times> workspace" where
  "updateDisplay this ws =
     (let (this1, connectionMap) = disconnectOldBlocks this;
          this2 = removeAllInputs this1
      in (case createAllInputs this2 connectionMap ws of
            (Some e, connectionMap1, this3, ws1) \<Rightarrow> (Some e, this3, ws1)
          | (None, connectionMap1, this3, ws1) \<Rightarrow>
              (let (connectionMap2, ws2) = deleteShadows connectionMap1 ws1
               in (None, this3, ws2))))"

section \<open>Argument-reporter rename propagation\<close>

text \<open>\<^verbatim>\<open>array.indexOf(x)\<close>: the first index, \<open>None\<close> for \<open>-1\<close>.\<close>

fun indexOf :: "'a list \<Rightarrow> 'a \<Rightarrow> nat option" where
  "indexOf [] x = None"
| "indexOf (y # ys) x = (if y = x then Some 0 else map_option Suc (indexOf ys x))"

record nameChange =
  newName :: "string option"
  changedBlocks :: "nat list"

text \<open>
  The reporters collected from \<^verbatim>\<open>definitionBlock.getDescendants(false)\<close>, which the host
  supplies as a list of blocks.
\<close>

definition argReportersOf :: "nat list \<Rightarrow> workspace \<Rightarrow> nat list" where
  "argReportersOf descendants ws =
     filter (\<lambda>b. (btype (blocks ws b) = ''argument_reporter_string_number'' \<or>
                   btype (blocks ws b) = ''argument_reporter_boolean'') \<and>
                  \<not> isShadow (blocks ws b)) descendants"

text \<open>
  \<^verbatim>\<open>block.getFieldValue("VALUE") === prevName\<close>: a missing field is \<^verbatim>\<open>null\<close> and a read
  out of range \<^verbatim>\<open>undefined\<close>, which are never strictly equal.
\<close>

definition fieldIs :: "workspace \<Rightarrow> string option \<Rightarrow> nat \<Rightarrow> bool" where
  "fieldIs ws prevName b =
     (case prevName of
        None \<Rightarrow> False
      | Some n \<Rightarrow> fieldValue (blocks ws b) ''VALUE'' = Some n)"

text \<open>
  The loop \<^verbatim>\<open>for (let i = 0, id; (id = this.argumentIds_[i]); i++)\<close> over the IDs from
  index \<open>i\<close> on: it ends at the end of the array and at the first empty ID, which is
  falsy.
\<close>

fun nameChangesFrom ::
  "string list \<Rightarrow> nat \<Rightarrow> procedureBlock \<Rightarrow> string list \<Rightarrow> string list \<Rightarrow> nat list \<Rightarrow> workspace
   \<Rightarrow> nameChange list" where
  "nameChangesFrom [] i this prevArgIds prevDisplayNames argReporters ws = []"
| "nameChangesFrom (ident # rest) i this prevArgIds prevDisplayNames argReporters ws =
     (if ident = [] then []
      else
        (case indexOf prevArgIds ident of
           None \<Rightarrow> nameChangesFrom rest (Suc i) this prevArgIds prevDisplayNames argReporters ws
         | Some prevIndex \<Rightarrow>
             let prevName = at prevDisplayNames prevIndex in
             if prevName \<noteq> at (displayNames this) i
             then \<lparr>newName = at (displayNames this) i,
                   changedBlocks = filter (fieldIs ws prevName) argReporters\<rparr>
                  # nameChangesFrom rest (Suc i) this prevArgIds prevDisplayNames argReporters ws
             else nameChangesFrom rest (Suc i) this prevArgIds prevDisplayNames argReporters ws))"

text \<open>The \<^verbatim>\<open>setFieldValue\<close> calls of the final double loop, in order.\<close>

definition renameCalls :: "nameChange list \<Rightarrow> (nat \<times> string option) list" where
  "renameCalls nameChanges =
     concat (map (\<lambda>nc. map (\<lambda>b. (b, newName nc)) (changedBlocks nc)) nameChanges)"

definition applyRenames :: "(nat \<times> string option) list \<Rightarrow> workspace \<Rightarrow> workspace" where
  "applyRenames calls ws = foldl (\<lambda>w (b, n). setFieldValue b n ''VALUE'' w) ws calls"

text \<open>
  \<^verbatim>\<open>updateArgumentReporterNames_\<close>. The second argument is
  \<^verbatim>\<open>this.getParent()\<close> with its descendants: \<open>None\<close> when the prototype has no parent.
\<close>

definition updateArgumentReporterNames ::
  "procedureBlock \<Rightarrow> nat list option \<Rightarrow> string list \<Rightarrow> string list \<Rightarrow> workspace \<Rightarrow> workspace" where
  "updateArgumentReporterNames this definitionDescendants prevArgIds prevDisplayNames ws =
     (case definitionDescendants of
        None \<Rightarrow> ws
      | Some descendants \<Rightarrow>
          let argReporters = argReportersOf descendants ws;
              nameChanges = nameChangesFrom (argumentIds this) 0 this prevArgIds prevDisplayNames
                              argReporters ws
          in applyRenames (renameCalls nameChanges) ws)"

section \<open>Serialization\<close>

text \<open>
  A mutation element with its attributes as the values their JSON text denotes.
  \<open>attr_generateshadows\<close> is \<open>None\<close> when the attribute is absent. Elements for
  prototypes and declarations carry the names and defaults as well.
\<close>

record element =
  attr_proccode :: string
  attr_argumentids :: "string list"
  attr_warp :: bool
  attr_generateshadows :: "bool option"

record definitionElement = element +
  attr_argumentnames :: "string list"
  attr_argumentdefaults :: "string list"

definition callerMutationToDom :: "procedureBlock \<Rightarrow> element" where
  "callerMutationToDom this =
     \<lparr>attr_proccode = procCode this, attr_argumentids = argumentIds this,
      attr_warp = warp this, attr_generateshadows = None\<rparr>"

text \<open>\<^verbatim>\<open>JSON.parse(null)\<close> is \<^verbatim>\<open>null\<close>, which is falsy.\<close>

definition callerDomToMutation ::
  "procedureBlock \<Rightarrow> 'a element_scheme \<Rightarrow> workspace \<Rightarrow> error option \<times> procedureBlock \<times> workspace" where
  "callerDomToMutation this xmlElement ws =
     updateDisplay
       (this\<lparr>procCode := attr_proccode xmlElement,
             generateShadows := (case attr_generateshadows xmlElement of Some g \<Rightarrow> g | None \<Rightarrow> False),
             argumentIds := attr_argumentids xmlElement,
             warp := attr_warp xmlElement\<rparr>) ws"

definition definitionMutationToDom :: "procedureBlock \<Rightarrow> bool \<Rightarrow> definitionElement" where
  "definitionMutationToDom this opt_generateShadows =
     \<lparr>attr_proccode = procCode this, attr_argumentids = argumentIds this,
      attr_warp = warp this,
      attr_generateshadows = (if opt_generateShadows then Some True else None),
      attr_argumentnames = displayNames this,
      attr_argumentdefaults = argumentDefaults this\<rparr>"

text \<open>
  \<^verbatim>\<open>definitionDomToMutation\<close>; only the prototype has \<^verbatim>\<open>updateArgumentReporterNames_\<close>.
  The second argument is the prototype's parent with its descendants, as above.
\<close>

definition definitionDomToMutation ::
  "procedureBlock \<Rightarrow> nat list option \<Rightarrow> definitionElement \<Rightarrow> workspace
   \<Rightarrow> error option \<times> procedureBlock \<times> workspace" where
  "definitionDomToMutation this definitionDescendants xmlElement ws =
     (let prevArgIds = argumentIds this;
          prevDisplayNames = displayNames this;
          this1 = this\<lparr>procCode := attr_proccode xmlElement,
                       warp := attr_warp xmlElement,
                       argumentIds := attr_argumentids xmlElement,
                       displayNames := attr_argumentnames xmlElement,
                       argumentDefaults := attr_argumentdefaults xmlElement\<rparr>
      in (case updateDisplay this1 ws of
            (Some e, this2, ws1) \<Rightarrow> (Some e, this2, ws1)
          | (None, this2, ws1) \<Rightarrow>
              if role this2 = Prototype
              then (None, this2,
                    updateArgumentReporterNames this2 definitionDescendants prevArgIds
                      prevDisplayNames ws1)
              else (None, this2, ws1)))"

section \<open>Cross-site propagation\<close>

text \<open>
  What \<^verbatim>\<open>mutationToDom()\<close> returns, by the block's role, and \<^verbatim>\<open>domToMutation\<close>
  likewise. \<^verbatim>\<open>Blockly.Xml.domToText\<close> belongs to the host and is a parameter.
\<close>

datatype dom = CallerDom element | DefinitionDom definitionElement

definition mutationToDom :: "procedureBlock \<Rightarrow> dom" where
  "mutationToDom this =
     (case role this of
        Call \<Rightarrow> CallerDom (callerMutationToDom this)
      | Prototype \<Rightarrow> DefinitionDom (definitionMutationToDom this False)
      | Declaration \<Rightarrow> DefinitionDom (definitionMutationToDom this False))"

definition domToMutation ::
  "procedureBlock \<Rightarrow> nat list option \<Rightarrow> definitionElement \<Rightarrow> workspace
   \<Rightarrow> error option \<times> procedureBlock \<times> workspace" where
  "domToMutation this definitionDescendants xmlElement ws =
     (case role this of
        Call \<Rightarrow> callerDomToMutation this xmlElement ws
      | Prototype \<Rightarrow> definitionDomToMutation this definitionDescendants xmlElement ws
      | Declaration \<Rightarrow> definitionDomToMutation this definitionDescendants xmlElement ws)"

text \<open>The \<^verbatim>\<open>BLOCK_CHANGE\<close> event fired for a changed mutation.\<close>

record changeEvent =
  changedBlock :: nat
  oldValue :: string
  newValue :: string

text \<open>
  \<^verbatim>\<open>callers.forEach(...)\<close>: each caller is a block address with its procedure data;
  \<open>parentDescendants\<close> is the host's \<^verbatim>\<open>getParent()\<close> and \<^verbatim>\<open>getDescendants(false)\<close>
  at the time of the call. A throw ends the loop with the callers as they are then.
\<close>

fun callersForEach ::
  "(dom \<Rightarrow> string) \<Rightarrow> (nat \<Rightarrow> workspace \<Rightarrow> nat list option) \<Rightarrow> definitionElement
   \<Rightarrow> (nat \<times> procedureBlock) list \<Rightarrow> workspace
   \<Rightarrow> error option \<times> (nat \<times> procedureBlock) list \<times> workspace \<times> changeEvent list" where
  "callersForEach domToText parentDescendants mutation [] ws = (None, [], ws, [])"
| "callersForEach domToText parentDescendants mutation ((b, caller) # rest) ws =
     (let oldMutation = domToText (mutationToDom caller) in
      (case domToMutation caller (parentDescendants b ws) mutation ws of
         (Some e, caller1, ws1) \<Rightarrow> (Some e, (b, caller1) # rest, ws1, [])
       | (None, caller1, ws1) \<Rightarrow>
           let newMutation = domToText (mutationToDom caller1);
               fired = (if oldMutation \<noteq> newMutation
                        then [\<lparr>changedBlock = b, oldValue = oldMutation, newValue = newMutation\<rparr>]
                        else []);
               (err, rest1, ws2, events) =
                 callersForEach domToText parentDescendants mutation rest ws1
           in (err, (b, caller1) # rest1, ws2, fired @ events)))"

text \<open>
  \<^verbatim>\<open>mutateCallersAndPrototype\<close>, given what \<^verbatim>\<open>getDefineBlock\<close>, \<^verbatim>\<open>getPrototypeBlock\<close>
  and \<^verbatim>\<open>getCallers\<close> found. Without a define block and a prototype nothing is done.
\<close>

definition mutateCallersAndPrototype ::
  "(dom \<Rightarrow> string) \<Rightarrow> (nat \<Rightarrow> workspace \<Rightarrow> nat list option) \<Rightarrow> nat option
   \<Rightarrow> (nat \<times> procedureBlock) option \<Rightarrow> (nat \<times> procedureBlock) list \<Rightarrow> definitionElement
   \<Rightarrow> workspace
   \<Rightarrow> error option \<times> (nat \<times> procedureBlock) list \<times> workspace \<times> changeEvent list" where
  "mutateCallersAndPrototype domToText parentDescendants defineBlock prototypeBlock callers
     mutation ws =
     (case (defineBlock, prototypeBlock) of
        (Some d, Some p) \<Rightarrow>
          callersForEach domToText parentDescendants mutation (callers @ [p]) ws
      | _ \<Rightarrow> (None, callers, ws, []))"

section \<open>The deletion guard\<close>

text \<open>
  The block tree as \<^verbatim>\<open>getCallers\<close> reads it: a block has an id, a type, the procCode
  that \<^verbatim>\<open>getProcCode()\<close> returns on a procedure block, and its child blocks.
\<close>

datatype blockSvg =
  BlockSvg (blockId: nat) (blockType: string) (getProcCode: string) (childBlocks: "blockSvg list")

text \<open>\<^verbatim>\<open>block.getDescendants(false)\<close>: the block itself and every block below it.\<close>

fun getDescendants :: "blockSvg \<Rightarrow> blockSvg list" where
  "getDescendants (BlockSvg i t p cs) = BlockSvg i t p cs # concat (map getDescendants cs)"

text \<open>The block type constants, as the block definitions name them.\<close>

definition PROCEDURES_CALL_BLOCK_TYPE :: string where
  "PROCEDURES_CALL_BLOCK_TYPE = ''procedures_call''"

definition PROCEDURES_DECLARATION_BLOCK_TYPE :: string where
  "PROCEDURES_DECLARATION_BLOCK_TYPE = ''procedures_declaration''"

definition PROCEDURES_PROTOTYPE_BLOCK_TYPE :: string where
  "PROCEDURES_PROTOTYPE_BLOCK_TYPE = ''procedures_prototype''"

definition isProcedureBlock :: "blockSvg \<Rightarrow> bool" where
  "isProcedureBlock b =
     (blockType b = PROCEDURES_CALL_BLOCK_TYPE \<or>
      blockType b = PROCEDURES_DECLARATION_BLOCK_TYPE \<or>
      blockType b = PROCEDURES_PROTOTYPE_BLOCK_TYPE)"

definition getCallers :: "string \<Rightarrow> blockSvg list \<Rightarrow> blockSvg \<Rightarrow> bool \<Rightarrow> blockSvg list" where
  "getCallers procName topBlocks definitionRoot allowRecursive =
     concat (map (\<lambda>b.
       if blockId b = blockId definitionRoot \<and> \<not> allowRecursive then []
       else filter (\<lambda>descendant.
              isProcedureBlock descendant \<and>
              blockType descendant = PROCEDURES_CALL_BLOCK_TYPE \<and>
              getProcCode descendant = procName) (getDescendants b)) topBlocks)"

text \<open>
  \<^verbatim>\<open>deleteProcedureDefCallback\<close>. The workspace is the list of its top blocks;
  \<open>checkAndDelete\<close> is the host's \<^verbatim>\<open>BlockSvg.prototype.checkAndDelete\<close>.
\<close>

definition deleteProcedureDefCallback ::
  "(blockSvg \<Rightarrow> blockSvg list \<Rightarrow> blockSvg list) \<Rightarrow> string \<Rightarrow> blockSvg \<Rightarrow> blockSvg list
   \<Rightarrow> bool \<times> blockSvg list" where
  "deleteProcedureDefCallback checkAndDelete procName definitionRoot topBlocks =
     (let callers = getCallers procName topBlocks definitionRoot False in
      if length callers > 0 then (False, topBlocks)
      else (True, checkAndDelete definitionRoot topBlocks))"

section \<open>Notions used to state the properties\<close>

text \<open>The three argument types that \<^verbatim>\<open>createAllInputs_\<close> accepts.\<close>

definition validType :: "string \<Rightarrow> bool" where
  "validType t = (t = NUMBER \<or> t = BOOLEAN \<or> t = STRING)"

text \<open>
  The shape of every piece of the split but the first: the code unit before the marker,
  the percent sign, and then either nothing (the next cut follows at once) or the
  marker's letter.
\<close>

definition laterPiece :: "string \<Rightarrow> bool" where
  "laterPiece p = (\<exists>c q. p = c # percent # q \<and>
      (q = [] \<or> (\<exists>t r. q = t # r \<and> (t = CHR ''n'' \<or> t = CHR ''b'' \<or> t = CHR ''s''))))"

text \<open>
  A rename that \<^verbatim>\<open>updateArgumentReporterNames_\<close> is to make for reporters labelled
  \<open>v\<close>: the argument at position \<open>j\<close> of the new ID list was in the previous list, had
  the display name \<open>v\<close> there, and has another display name now.
\<close>

definition renamePair :: "procedureBlock \<Rightarrow> string list \<Rightarrow> string list \<Rightarrow> string \<Rightarrow> nat \<Rightarrow> bool" where
  "renamePair this prevArgIds prevDisplayNames v j =
     (j < length (argumentIds this) \<and>
      (\<exists>k. indexOf prevArgIds (argumentIds this ! j) = Some k \<and> at prevDisplayNames k = Some v) \<and>
      at (displayNames this) j \<noteq> Some v)"

text \<open>
  The notifications that cross-site propagation is to emit: one for each caller whose
  serialized mutation after the mutation differs from the one before, in the order of
  the callers.
\<close>

definition expectedEvents ::
  "(dom \<Rightarrow> string) \<Rightarrow> (nat \<times> procedureBlock) list \<Rightarrow> (nat \<times> procedureBlock) list
   \<Rightarrow> changeEvent list" where
  "expectedEvents domToText before after =
     concat (map (\<lambda>z.
       if domToText (mutationToDom (snd (fst z))) \<noteq> domToText (mutationToDom (snd (snd z)))
       then [\<lparr>changedBlock = fst (fst z),
              oldValue = domToText (mutationToDom (snd (fst z))),
              newValue = domToText (mutationToDom (snd (snd z)))\<rparr>]
       else []) (zip before after))"

text \<open>
  For the reordering of arguments: the names of the value inputs of a block in their
  order, and the components of a procCode that stand for arguments.
\<close>

definition valueNames :: "input list \<Rightarrow> string list" where
  "valueNames inputs = concat (map (\<lambda>i. case i of VALUE v \<Rightarrow> [name v] | DUMMY t \<Rightarrow> []) inputs)"

definition argComponents :: "string list \<Rightarrow> string list" where
  "argComponents cs = filter (\<lambda>c. substring c 0 1 = ''%'') cs"

text \<open>
  The condition under which a saved block \<open>b\<close> comes back to a slot of type \<open>t\<close>: the
  populate policy takes it (always on a call block, and on a prototype when
  \<^verbatim>\<open>checkOldTypeMatches_\<close> accepts it for the type of the slot), and the connection
  checker accepts it at the new input of the slot, whose check is \<^verbatim>\<open>"Boolean"\<close> for a
  Boolean slot and which has no check otherwise.
\<close>

definition reusable :: "procedureBlock \<Rightarrow> workspace \<Rightarrow> nat \<Rightarrow> string \<Rightarrow> bool" where
  "reusable this ws b t =
     ((role this = Call \<or> (role this = Prototype \<and> checkOldTypeMatches (Some b) t ws)) \<and>
      canConnect ws (if t = BOOLEAN then Some ''Boolean'' else None)
        (btype (blocks ws b)) (isShadow (blocks ws b)))"




section \<open>Example blocks\<close>

text \<open>
  A workspace with a few blocks: a number shadow, a user block, an argument editor,
  the two reporters of a prototype, and reporters placed in a definition body and
  elsewhere, the last of them a Boolean reporter. Its connection checker is the host's
  type check on the output checks of these block types (the extensions
  \<^verbatim>\<open>output_number\<close>, \<^verbatim>\<open>output_string\<close> and \<^verbatim>\<open>output_boolean\<close> set them; a block with
  both \<^verbatim>\<open>output_number\<close> and \<^verbatim>\<open>output_string\<close> keeps the check of the second): an
  input without a check takes every block, and an input with a check takes the blocks
  whose output has that check or none.
\<close>

definition exampleBlocks :: "nat \<Rightarrow> block" where
  "exampleBlocks b =
     (if b = 1 then \<lparr>btype = ''math_number'', isShadow = True,
                     fieldValue = [''NUM'' \<mapsto> ''5''], disposed = False\<rparr>
      else if b = 2 then \<lparr>btype = ''operator_add'', isShadow = False,
                     fieldValue = Map.empty, disposed = False\<rparr>
      else if b = 3 then \<lparr>btype = ''argument_editor_string_number'', isShadow = True,
                     fieldValue = [''TEXT'' \<mapsto> ''old''], disposed = False\<rparr>
      else if b = 4 then \<lparr>btype = ''argument_reporter_string_number'', isShadow = True,
                     fieldValue = [''VALUE'' \<mapsto> ''x''], disposed = False\<rparr>
      else if b = 5 then \<lparr>btype = ''argument_reporter_boolean'', isShadow = True,
                     fieldValue = [''VALUE'' \<mapsto> ''y''], disposed = False\<rparr>
      else if b = 6 then \<lparr>btype = ''argument_reporter_string_number'', isShadow = False,
                     fieldValue = [''VALUE'' \<mapsto> ''x''], disposed = False\<rparr>
      else if b = 7 then \<lparr>btype = ''argument_reporter_string_number'', isShadow = False,
                     fieldValue = [''VALUE'' \<mapsto> ''y''], disposed = False\<rparr>
      else if b = 8 then \<lparr>btype = ''argument_reporter_string_number'', isShadow = False,
                     fieldValue = [''VALUE'' \<mapsto> ''x''], disposed = False\<rparr>
      else if b = 9 then \<lparr>btype = ''argument_reporter_boolean'', isShadow = False,
                     fieldValue = [''VALUE'' \<mapsto> ''y''], disposed = False\<rparr>
      else \<lparr>btype = ''text'', isShadow = False, fieldValue = Map.empty, disposed = False\<rparr>)"

definition exampleOutput :: "string \<Rightarrow> string option" where
  "exampleOutput t =
     (if t = ''argument_reporter_boolean'' \<or> t = ''argument_editor_boolean''
      then Some ''Boolean''
      else if t = ''argument_reporter_string_number'' \<or> t = ''argument_editor_string_number''
              \<or> t = ''text''
      then Some ''String''
      else if t = ''math_number'' \<or> t = ''operator_add'' then Some ''Number''
      else None)"

definition exampleCanConnect :: "string option \<Rightarrow> string \<Rightarrow> bool \<Rightarrow> bool" where
  "exampleCanConnect c t s =
     (case c of
        None \<Rightarrow> True
      | Some inputCheck \<Rightarrow>
          (case exampleOutput t of None \<Rightarrow> True | Some outputCheck \<Rightarrow> outputCheck = inputCheck))"

definition exampleWorkspace :: workspace where
  "exampleWorkspace = \<lparr>blocks = exampleBlocks, nextId = 10, canConnect = exampleCanConnect\<rparr>"

text \<open>A call block of \<^verbatim>\<open>say %s\<close> with nothing attached, generating shadows.\<close>

definition exampleCall :: procedureBlock where
  "exampleCall =
     \<lparr>role = Call, procCode = ''say %s'', argumentIds = [''a''], displayNames = [],
      argumentDefaults = [], warp = False, generateShadows = True,
      inputList = [DUMMY ''say'',
                   VALUE \<lparr>name = ''a'', check = None, targetBlock = None, getShadowDom = None\<rparr>]\<rparr>"

text \<open>A call block of \<^verbatim>\<open>f %s %b\<close> with the user block 2 in \<open>a\<close> and the shadow 1 in \<open>b\<close>.\<close>

definition exampleCall2 :: procedureBlock where
  "exampleCall2 =
     \<lparr>role = Call, procCode = ''f %s %b'', argumentIds = [''a'', ''b''], displayNames = [],
      argumentDefaults = [], warp = False, generateShadows = False,
      inputList = [DUMMY ''f'',
                   VALUE \<lparr>name = ''a'', check = None, targetBlock = Some 2, getShadowDom = None\<rparr>,
                   VALUE \<lparr>name = ''b'', check = Some ''Boolean'', targetBlock = Some 1,
                          getShadowDom = None\<rparr>]\<rparr>"

text \<open>The prototype of \<^verbatim>\<open>f %s %b\<close> with its reporters 4 and 5.\<close>

definition examplePrototype :: procedureBlock where
  "examplePrototype =
     \<lparr>role = Prototype, procCode = ''f %s %b'', argumentIds = [''a'', ''b''],
      displayNames = [''x'', ''y''], argumentDefaults = ['''', ''false''], warp = False,
      generateShadows = False,
      inputList = [DUMMY ''f'',
                   VALUE \<lparr>name = ''a'', check = None, targetBlock = Some 4, getShadowDom = None\<rparr>,
                   VALUE \<lparr>name = ''b'', check = Some ''Boolean'', targetBlock = Some 5,
                          getShadowDom = None\<rparr>]\<rparr>"

text \<open>A declaration of \<^verbatim>\<open>%s\<close> with the argument editor 3 in its input.\<close>

definition exampleDeclaration :: procedureBlock where
  "exampleDeclaration =
     \<lparr>role = Declaration, procCode = ''%s'', argumentIds = [''a''],
      displayNames = [''old''], argumentDefaults = [''''], warp = False,
      generateShadows = False,
      inputList = [VALUE \<lparr>name = ''a'', check = None, targetBlock = Some 3, getShadowDom = None\<rparr>]\<rparr>"

text \<open>
  A workspace for the deletion guard: the definition of \<^verbatim>\<open>f %s\<close> (block 20, with its
  prototype 21 and a recursive call 22 in its body) and a script (block 30) that may
  hold a call 31 of the same procedure.
\<close>

definition exampleDefinition :: blockSvg where
  "exampleDefinition =
     BlockSvg 20 ''procedures_definition'' []
       [BlockSvg 21 ''procedures_prototype'' ''f %s'' [],
        BlockSvg 22 ''procedures_call'' ''f %s'' []]"

definition exampleScriptWithCall :: blockSvg where
  "exampleScriptWithCall =
     BlockSvg 30 ''event_whenflagclicked'' [] [BlockSvg 31 ''procedures_call'' ''f %s'' []]"

definition exampleScriptWithoutCall :: blockSvg where
  "exampleScriptWithoutCall =
     BlockSvg 30 ''event_whenflagclicked'' [] [BlockSvg 31 ''procedures_call'' ''g'' []]"

text \<open>A stand-in for the host's disposal: the top block is taken off the workspace.\<close>

definition exampleCheckAndDelete :: "blockSvg \<Rightarrow> blockSvg list \<Rightarrow> blockSvg list" where
  "exampleCheckAndDelete root topBlocks = filter (\<lambda>b. blockId b \<noteq> blockId root) topBlocks"

text \<open>
  The example prototype after an edit that exchanges the display names of its two
  arguments; before the edit the names were \<open>x\<close> and \<open>y\<close>.
\<close>

definition exampleSwapped :: procedureBlock where
  "exampleSwapped = examplePrototype\<lparr>displayNames := [''y'', ''x'']\<rparr>"

text \<open>
  Stand-ins for the host in the examples: a serializer that writes the procCode, the
  IDs and the names one after the other, and a workspace in which block 21 is the
  prototype of a definition whose descendants are the blocks 4 to 7.
\<close>

definition exampleDomToText :: "dom \<Rightarrow> string" where
  "exampleDomToText d =
     (case d of
        CallerDom e \<Rightarrow> attr_proccode e @ concat (attr_argumentids e)
      | DefinitionDom e \<Rightarrow>
          attr_proccode e @ concat (attr_argumentids e) @ concat (attr_argumentnames e))"

definition exampleParentDescendants :: "nat \<Rightarrow> workspace \<Rightarrow> nat list option" where
  "exampleParentDescendants b ws = (if b = 21 then Some [4, 5, 6, 7] else None)"

text \<open>An edit that renames the first argument of \<^verbatim>\<open>f %s %b\<close>, and one with a bad marker.\<close>

definition exampleRename :: definitionElement where
  "exampleRename =
     \<lparr>attr_proccode = ''f %s %b'', attr_argumentids = [''a'', ''b''], attr_warp = False,
      attr_generateshadows = None, attr_argumentnames = [''p'', ''y''],
      attr_argumentdefaults = ['''', ''false'']\<rparr>"

definition exampleBadEdit :: definitionElement where
  "exampleBadEdit =
     \<lparr>attr_proccode = ''%x'', attr_argumentids = [''a'', ''b''], attr_warp = False,
      attr_generateshadows = None, attr_argumentnames = [''x'', ''y''],
      attr_argumentdefaults = ['''', ''false'']\<rparr>"




section \<open>The split of a procCode\<close>

subsection \<open>The pieces of the split\<close>

lemma percent_not_white: "\<not> isWhite percent"
  by (simp add: isWhite_def percent_def)

lemma marker_letter_not_white:
  "t = CHR ''n'' \<or> t = CHR ''b'' \<or> t = CHR ''s'' \<Longrightarrow> \<not> isWhite t \<and> t \<noteq> percent"
  by (auto simp: isWhite_def percent_def)

lemma trimRight_Cons:
  "\<not> isWhite x \<Longrightarrow> rev (dropWhile isWhite (rev (x # xs))) = x # rev (dropWhile isWhite (rev xs))"
  by (simp add: dropWhile_append3)

lemma hd_splitFrom: "\<exists>p. hd (splitFrom cur s) = cur @ p"
proof (induction s arbitrary: cur)
  case Nil
  then show ?case by simp
next
  case (Cons c rest)
  show ?case
  proof (cases "cur \<noteq> [] \<and> markerAt (c # rest)")
    case True
    then show ?thesis by simp
  next
    case False
    from Cons.IH [of "cur @ [c]"] obtain p where "hd (splitFrom (cur @ [c]) rest) = (cur @ [c]) @ p"
      by blast
    with False show ?thesis by auto
  qed
qed

lemma splitFrom_not_Nil: "splitFrom cur s \<noteq> []"
  by (induction s arbitrary: cur) auto

lemma hd_after_marker:
  assumes "markerAt (c # rest)"
  shows "laterPiece (hd (splitFrom [c] rest))"
proof -
  from assms obtain t r where rest: "rest = percent # t # r"
    and t: "t = CHR ''n'' \<or> t = CHR ''b'' \<or> t = CHR ''s''"
    by (cases rest rule: markerAt.cases) auto
  from t have tp: "t \<noteq> percent" using marker_letter_not_white by blast
  have step1: "splitFrom [c] rest = splitFrom [c, percent] (t # r)"
    using rest tp by (cases r) auto
  show ?thesis
  proof (cases "markerAt (t # r)")
    case True
    then have "splitFrom [c, percent] (t # r) = [c, percent] # splitFrom [t] r" by simp
    then show ?thesis using step1 by (simp add: laterPiece_def)
  next
    case False
    then have "splitFrom [c, percent] (t # r) = splitFrom [c, percent, t] r" by simp
    moreover obtain p where "hd (splitFrom [c, percent, t] r) = [c, percent, t] @ p"
      using hd_splitFrom by blast
    ultimately show ?thesis using step1 t by (simp add: laterPiece_def)
  qed
qed

lemma tl_splitFrom_later: "\<forall>p \<in> set (tl (splitFrom cur s)). laterPiece p"
proof (induction s arbitrary: cur)
  case Nil
  then show ?case by simp
next
  case (Cons c rest)
  show ?case
  proof (cases "cur \<noteq> [] \<and> markerAt (c # rest)")
    case True
    then have eq: "tl (splitFrom cur (c # rest)) = splitFrom [c] rest" by simp
    have ne: "splitFrom [c] rest \<noteq> []" by (rule splitFrom_not_Nil)
    have "laterPiece (hd (splitFrom [c] rest))" using True hd_after_marker by blast
    moreover have "\<forall>p \<in> set (tl (splitFrom [c] rest)). laterPiece p" by (rule Cons.IH)
    ultimately have "\<forall>p \<in> set (splitFrom [c] rest). laterPiece p"
      using ne by (cases "splitFrom [c] rest") auto
    then show ?thesis using eq by simp
  next
    case False
    then have "splitFrom cur (c # rest) = splitFrom (cur @ [c]) rest" by auto
    then show ?thesis using Cons.IH by simp
  qed
qed

lemma laterPiece_trim:
  assumes "laterPiece p" and "substring (trim p) 0 1 = ''%''"
  shows "substring (trim p) 1 2 \<in> {NUMBER, BOOLEAN, STRING, [], [percent]}"
proof -
  from assms(1) obtain c q where p: "p = c # percent # q"
    and q: "q = [] \<or> (\<exists>t r. q = t # r \<and> (t = CHR ''n'' \<or> t = CHR ''b'' \<or> t = CHR ''s''))"
    unfolding laterPiece_def by blast
  show ?thesis
  proof (cases "isWhite c")
    case True
    then have "trim p = percent # rev (dropWhile isWhite (rev q))"
      using p percent_not_white by (simp add: trim_def dropWhile_append3)
    moreover have "q \<noteq> [] \<Longrightarrow> \<exists>t r. rev (dropWhile isWhite (rev q)) = t # r \<and> [t] \<in> {NUMBER, BOOLEAN, STRING}"
    proof -
      assume "q \<noteq> []"
      with q obtain t r0 where q': "q = t # r0"
        and t: "t = CHR ''n'' \<or> t = CHR ''b'' \<or> t = CHR ''s''" by blast
      from t have "\<not> isWhite t" using marker_letter_not_white by blast
      then have "rev (dropWhile isWhite (rev q)) = t # rev (dropWhile isWhite (rev r0))"
        unfolding q' by (rule trimRight_Cons)
      moreover from t have "[t] \<in> {NUMBER, BOOLEAN, STRING}"
        by (auto simp: NUMBER_def BOOLEAN_def STRING_def)
      ultimately show ?thesis by blast
    qed
    ultimately show ?thesis
    proof (cases "q = []")
      case True
      assume "trim p = percent # rev (dropWhile isWhite (rev q))"
      with True show ?thesis by (simp add: substring_def)
    next
      case False
      assume tp: "trim p = percent # rev (dropWhile isWhite (rev q))"
      assume "q \<noteq> [] \<Longrightarrow> \<exists>t r. rev (dropWhile isWhite (rev q)) = t # r \<and> [t] \<in> {NUMBER, BOOLEAN, STRING}"
      with False obtain t r where "rev (dropWhile isWhite (rev q)) = t # r"
        and "[t] \<in> {NUMBER, BOOLEAN, STRING}" by blast
      with tp have "substring (trim p) 1 2 = [t]" by (simp add: substring_def)
      with \<open>[t] \<in> {NUMBER, BOOLEAN, STRING}\<close> show ?thesis by auto
    qed
  next
    case False
    then have "trim p = c # percent # rev (dropWhile isWhite (rev q))"
      using p percent_not_white by (simp add: trim_def dropWhile_append3)
    then show ?thesis using assms(2) by (auto simp: substring_def percent_def)
  qed
qed

subsection \<open>Errors of the rebuild loop\<close>

lemma populateArgumentOnCaller_error:
  "populateArgumentOnCaller this type index cm ident inp ws = (Some e, r) \<Longrightarrow> e = TypeError"
  by (auto simp: populateArgumentOnCaller_def Let_def split: option.splits if_splits prod.splits)

lemma populateArgumentOnPrototype_error:
  "populateArgumentOnPrototype this type index cm ident inp ws = (Some e, r) \<Longrightarrow> e = TypeError"
  by (auto simp: populateArgumentOnPrototype_def Let_def split: option.splits if_splits prod.splits)

lemma populateArgumentOnDeclaration_error:
  "populateArgumentOnDeclaration this type index cm ident inp ws = (Some e, r) \<Longrightarrow> e = TypeError"
  by (auto simp: populateArgumentOnDeclaration_def Let_def split: option.splits if_splits prod.splits)

lemma populateArgument_error:
  "populateArgument this type index cm ident inp ws = (Some e, r) \<Longrightarrow> e = TypeError"
  by (cases "role this")
     (auto simp: populateArgument_def dest: populateArgumentOnCaller_error
        populateArgumentOnPrototype_error populateArgumentOnDeclaration_error)

lemma loop_label:
  "substring c 0 1 \<noteq> ''%'' \<Longrightarrow>
   createAllInputsLoop (c # cs) n cm this ws =
   createAllInputsLoop cs n cm (addProcedureLabel this (replaceEscaped (trim c))) ws"
  by simp

lemma loop_invalid:
  "substring c 0 1 = ''%'' \<Longrightarrow> \<not> validType (substring c 1 2) \<Longrightarrow>
   createAllInputsLoop (c # cs) n cm this ws =
   (Some (InvalidType (substring c 1 2)), cm, this, ws)"
  by (simp add: validType_def Let_def)

lemma loop_noname:
  "substring c 0 1 = ''%'' \<Longrightarrow> validType (substring c 1 2) \<Longrightarrow>
   at (argumentIds this) n = None \<or> at (argumentIds this) n = Some [] \<Longrightarrow>
   createAllInputsLoop (c # cs) n cm this ws = (Some EmptyInputName, cm, this, ws)"
  by (auto simp: validType_def Let_def)

lemma loop_arg_ok:
  "substring c 0 1 = ''%'' \<Longrightarrow> validType (substring c 1 2) \<Longrightarrow>
   at (argumentIds this) n = Some ident \<Longrightarrow> ident \<noteq> [] \<Longrightarrow>
   populateArgument this (substring c 1 2) n cm ident
     (appendValueInput ident (substring c 1 2)) ws = (None, cm1, inp1, ws1) \<Longrightarrow>
   createAllInputsLoop (c # cs) n cm this ws =
   createAllInputsLoop cs (Suc n) cm1
     (addProcedureLabel (this\<lparr>inputList := inputList this @ [VALUE inp1]\<rparr>)
        (replaceEscaped (trim (substringFrom c 2)))) ws1"
  by (auto simp: validType_def Let_def)

lemma loop_arg_err:
  "substring c 0 1 = ''%'' \<Longrightarrow> validType (substring c 1 2) \<Longrightarrow>
   at (argumentIds this) n = Some ident \<Longrightarrow> ident \<noteq> [] \<Longrightarrow>
   populateArgument this (substring c 1 2) n cm ident
     (appendValueInput ident (substring c 1 2)) ws = (Some e, cm1, inp1, ws1) \<Longrightarrow>
   createAllInputsLoop (c # cs) n cm this ws =
   (Some e, cm1, this\<lparr>inputList := inputList this @ [VALUE inp1]\<rparr>, ws1)"
  by (auto simp: validType_def Let_def)

lemma loop_later_error:
  assumes "\<forall>c \<in> set cs. substring c 0 1 = ''%'' \<longrightarrow>
             substring c 1 2 \<in> {NUMBER, BOOLEAN, STRING, [], [percent]}"
    and "createAllInputsLoop cs n cm this ws = (Some (InvalidType t), r)"
  shows "t = [] \<or> t = [percent]"
  using assms
proof (induction cs arbitrary: n cm this ws)
  case Nil
  then show ?case by simp
next
  case (Cons c cs)
  show ?case
  proof (cases "substring c 0 1 = ''%''")
    case False
    from loop_label [OF False] Cons.prems(2) have
      "createAllInputsLoop cs n cm (addProcedureLabel this (replaceEscaped (trim c))) ws
         = (Some (InvalidType t), r)" by simp
    with Cons.IH Cons.prems(1) show ?thesis by simp
  next
    case True
    let ?ty = "substring c 1 2"
    show ?thesis
    proof (cases "validType ?ty")
      case False
      from loop_invalid [OF True False] Cons.prems(2) have "t = ?ty" by simp
      moreover from True Cons.prems(1) have "?ty \<in> {NUMBER, BOOLEAN, STRING, [], [percent]}" by simp
      ultimately show ?thesis using False by (auto simp: validType_def)
    next
      case valid: True
      show ?thesis
      proof (cases "at (argumentIds this) n = None \<or> at (argumentIds this) n = Some []")
        case noname: True
        from loop_noname [OF True valid noname] Cons.prems(2) show ?thesis by simp
      next
        case False
        then obtain ident where ident: "at (argumentIds this) n = Some ident" and ne: "ident \<noteq> []"
          by auto
        obtain e1 cm1 inp1 ws1 where pop:
          "populateArgument this ?ty n cm ident (appendValueInput ident ?ty) ws = (e1, cm1, inp1, ws1)"
          by (metis prod_cases4)
        show ?thesis
        proof (cases e1)
          case None
          from loop_arg_ok [OF True valid ident ne pop [unfolded None]] Cons.prems(2) have
            "createAllInputsLoop cs (Suc n) cm1
               (addProcedureLabel (this\<lparr>inputList := inputList this @ [VALUE inp1]\<rparr>)
                  (replaceEscaped (trim (substringFrom c 2)))) ws1 = (Some (InvalidType t), r)"
            by simp
          with Cons.IH Cons.prems(1) show ?thesis by simp
        next
          case (Some e)
          with pop have "e = TypeError" using populateArgument_error by blast
          with loop_arg_err [OF True valid ident ne pop [unfolded Some]] Cons.prems(2)
          show ?thesis by simp
        qed
      qed
    qed
  qed
qed

section \<open>What a mutation leaves of the block\<close>

lemma addProcedureLabel_frame: "\<exists>l. addProcedureLabel this t = this\<lparr>inputList := l\<rparr>"
proof -
  have "addProcedureLabel this t = this\<lparr>inputList := inputList (addProcedureLabel this t)\<rparr>"
    by (cases "role this") (simp_all add: addProcedureLabel_def addLabelField_def addLabelEditor_def)
  then show ?thesis by blast
qed

lemma loop_frame:
  "createAllInputsLoop cs n cm this ws = (e, cm', this', ws') \<Longrightarrow> \<exists>l. this' = this\<lparr>inputList := l\<rparr>"
proof (induction cs arbitrary: n cm this ws)
  case Nil
  then have "this' = this\<lparr>inputList := inputList this\<rparr>" by simp
  then show ?case by blast
next
  case (Cons c cs)
  show ?case
  proof (cases "substring c 0 1 = ''%''")
    case False
    obtain l where l: "addProcedureLabel this (replaceEscaped (trim c)) = this\<lparr>inputList := l\<rparr>"
      using addProcedureLabel_frame by blast
    from loop_label [OF False] Cons.prems l have
      "createAllInputsLoop cs n cm (this\<lparr>inputList := l\<rparr>) ws = (e, cm', this', ws')" by simp
    from Cons.IH [OF this] show ?thesis by auto
  next
    case True
    let ?ty = "substring c 1 2"
    show ?thesis
    proof (cases "validType ?ty")
      case False
      from loop_invalid [OF True False] Cons.prems have "this' = this\<lparr>inputList := inputList this\<rparr>"
        by simp
      then show ?thesis by blast
    next
      case valid: True
      show ?thesis
      proof (cases "at (argumentIds this) n = None \<or> at (argumentIds this) n = Some []")
        case noname: True
        from loop_noname [OF True valid noname] Cons.prems
        have "this' = this\<lparr>inputList := inputList this\<rparr>" by simp
        then show ?thesis by blast
      next
        case False
        then obtain ident where ident: "at (argumentIds this) n = Some ident" and ne: "ident \<noteq> []"
          by auto
        obtain e1 cm1 inp1 ws1 where pop:
          "populateArgument this ?ty n cm ident (appendValueInput ident ?ty) ws = (e1, cm1, inp1, ws1)"
          by (metis prod_cases4)
        show ?thesis
        proof (cases e1)
          case None
          obtain l where l: "addProcedureLabel (this\<lparr>inputList := inputList this @ [VALUE inp1]\<rparr>)
                  (replaceEscaped (trim (substringFrom c 2))) = this\<lparr>inputList := l\<rparr>"
            using addProcedureLabel_frame [of "this\<lparr>inputList := inputList this @ [VALUE inp1]\<rparr>"]
            by auto
          from loop_arg_ok [OF True valid ident ne pop [unfolded None]] Cons.prems l have
            "createAllInputsLoop cs (Suc n) cm1 (this\<lparr>inputList := l\<rparr>) ws1 = (e, cm', this', ws')"
            by simp
          from Cons.IH [OF this] show ?thesis by auto
        next
          case (Some err)
          from loop_arg_err [OF True valid ident ne pop [unfolded Some]] Cons.prems
          show ?thesis by auto
        qed
      qed
    qed
  qed
qed

lemma disconnectOldBlocks_frame: "\<exists>l. fst (disconnectOldBlocks this) = this\<lparr>inputList := l\<rparr>"
  by (auto simp: disconnectOldBlocks_def split: prod.splits)

lemma updateDisplay_frame:
  assumes "updateDisplay this ws = (e, this', ws')"
  shows "\<exists>l. this' = this\<lparr>inputList := l\<rparr>"
proof -
  obtain this1 cm where d: "disconnectOldBlocks this = (this1, cm)" by (cases "disconnectOldBlocks this")
  obtain e1 cm1 this3 ws1 where c: "createAllInputs (removeAllInputs this1) cm ws = (e1, cm1, this3, ws1)"
    by (metis prod_cases4)
  from assms d c have "this' = this3"
    by (auto simp: updateDisplay_def Let_def split: option.splits prod.splits)
  moreover from c obtain l where "this3 = (removeAllInputs this1)\<lparr>inputList := l\<rparr>"
    unfolding createAllInputs_def using loop_frame by blast
  moreover from d obtain l1 where "this1 = this\<lparr>inputList := l1\<rparr>"
    using disconnectOldBlocks_frame [of this] by auto
  ultimately have "this' = this\<lparr>inputList := l\<rparr>" by (simp add: removeAllInputs_def)
  then show ?thesis by blast
qed

text \<open>
  A display that ends without an error has found a non-empty ID for each argument
  component: \<^verbatim>\<open>updateDisplay_\<close> throws at the first component whose ID is missing or
  empty. So a block that has been displayed with as many argument components as IDs has
  no empty ID.
\<close>

lemma addProcedureLabel_ids: "argumentIds (addProcedureLabel this t) = argumentIds this"
  using addProcedureLabel_frame [of this t] by auto

lemma loop_ok_ids:
  "createAllInputsLoop cs n cm this ws = (None, r) \<Longrightarrow>
   \<forall>j < length (argComponents cs).
     \<exists>ident. at (argumentIds this) (n + j) = Some ident \<and> ident \<noteq> []"
proof (induction cs arbitrary: n cm this ws)
  case Nil
  then show ?case by (simp add: argComponents_def)
next
  case (Cons c cs)
  show ?case
  proof (cases "substring c 0 1 = ''%''")
    case False
    then have ac: "argComponents (c # cs) = argComponents cs" by (simp add: argComponents_def)
    from loop_label [OF False] Cons.prems have
      "createAllInputsLoop cs n cm (addProcedureLabel this (replaceEscaped (trim c))) ws = (None, r)"
      by simp
    from Cons.IH [OF this] show ?thesis unfolding ac addProcedureLabel_ids .
  next
    case True
    then have ac: "argComponents (c # cs) = c # argComponents cs" by (simp add: argComponents_def)
    let ?ty = "substring c 1 2"
    have valid: "validType ?ty"
    proof (rule ccontr)
      assume "\<not> validType ?ty"
      from loop_invalid [OF True this] Cons.prems show False by simp
    qed
    have named: "\<not> (at (argumentIds this) n = None \<or> at (argumentIds this) n = Some [])"
    proof
      assume "at (argumentIds this) n = None \<or> at (argumentIds this) n = Some []"
      from loop_noname [OF True valid this] Cons.prems show False by simp
    qed
    then obtain ident where ident: "at (argumentIds this) n = Some ident" and ne: "ident \<noteq> []"
      by auto
    obtain e1 cm1 inp1 ws1 where pop:
      "populateArgument this ?ty n cm ident (appendValueInput ident ?ty) ws = (e1, cm1, inp1, ws1)"
      by (metis prod_cases4)
    have e1: "e1 = None"
    proof (cases e1)
      case None
      then show ?thesis .
    next
      case (Some e)
      from loop_arg_err [OF True valid ident ne pop [unfolded Some]] Cons.prems show ?thesis by simp
    qed
    let ?this1 = "addProcedureLabel (this\<lparr>inputList := inputList this @ [VALUE inp1]\<rparr>)
                    (replaceEscaped (trim (substringFrom c 2)))"
    from loop_arg_ok [OF True valid ident ne pop [unfolded e1]] Cons.prems have
      "createAllInputsLoop cs (Suc n) cm1 ?this1 ws1 = (None, r)" by simp
    from Cons.IH [OF this] have ih: "\<forall>j < length (argComponents cs).
        \<exists>ident. at (argumentIds this) (Suc n + j) = Some ident \<and> ident \<noteq> []"
      unfolding addProcedureLabel_ids by simp
    show ?thesis
    proof (intro allI impI)
      fix j assume j: "j < length (argComponents (c # cs))"
      show "\<exists>ident. at (argumentIds this) (n + j) = Some ident \<and> ident \<noteq> []"
      proof (cases j)
        case 0
        with ident ne show ?thesis by simp
      next
        case (Suc i)
        with j ac have "i < length (argComponents cs)" by simp
        with ih Suc show ?thesis by simp
      qed
    qed
  qed
qed

lemma displayed_ids_nonempty:
  assumes "fst (updateDisplay this ws) = None"
    and "length (argComponents (procComponents (procCode this))) = length (argumentIds this)"
  shows "[] \<notin> set (argumentIds this)"
proof
  assume "[] \<in> set (argumentIds this)"
  then obtain j where j: "j < length (argumentIds this)" "argumentIds this ! j = []"
    by (auto simp: in_set_conv_nth)
  obtain this1 cm where d: "disconnectOldBlocks this = (this1, cm)" by (cases "disconnectOldBlocks this")
  from d obtain l1 where this1: "this1 = this\<lparr>inputList := l1\<rparr>"
    using disconnectOldBlocks_frame [of this] by auto
  let ?this2 = "this\<lparr>inputList := []\<rparr>"
  have r: "removeAllInputs this1 = ?this2" by (simp add: this1 removeAllInputs_def)
  obtain e1 r1 where c: "createAllInputs ?this2 cm ws = (e1, r1)" by (metis surj_pair)
  have "e1 = None"
  proof (cases e1)
    case None
    then show ?thesis .
  next
    case (Some e)
    with c d r assms(1) show ?thesis
      by (cases r1) (auto simp: updateDisplay_def split: prod.splits)
  qed
  with c have "createAllInputsLoop (procComponents (procCode this)) 0 cm ?this2 ws = (None, r1)"
    by (simp add: createAllInputs_def)
  from loop_ok_ids [OF this] assms(2) j(1)
  obtain ident where "at (argumentIds this) j = Some ident" "ident \<noteq> []" by auto
  with j show False by (simp add: at_def)
qed

section \<open>Invalid argument markers\<close>

lemma procComponents_Cons:
  "\<exists>p ps. split s = p # ps \<and> procComponents s = trim p # map trim ps \<and> (\<forall>q \<in> set ps. laterPiece q)"
proof -
  have "splitFrom [] s \<noteq> []" by (rule splitFrom_not_Nil)
  then obtain p ps where eq: "splitFrom [] s = p # ps" by (cases "splitFrom [] s") auto
  have "\<forall>q \<in> set (tl (splitFrom [] s)). laterPiece q" by (rule tl_splitFrom_later)
  with eq show ?thesis by (simp add: split_def procComponents_def)
qed

text \<open>
  Claim C6, as the code has it. The claim says that every unescaped \<^verbatim>\<open>%\<close> followed by
  a letter other than \<^verbatim>\<open>n\<close>, \<^verbatim>\<open>b\<close>, \<^verbatim>\<open>s\<close> makes parsing fail with an error naming
  the letter, wherever it stands. The split cuts only before \<^verbatim>\<open>%n\<close>, \<^verbatim>\<open>%b\<close> and
  \<^verbatim>\<open>%s\<close>, so the check of the type letter is reached only by a component that begins
  with \<^verbatim>\<open>%\<close>. For every code unit \<open>x\<close> other than \<^verbatim>\<open>n\<close>, \<^verbatim>\<open>b\<close>, \<^verbatim>\<open>s\<close> and
  \<^verbatim>\<open>%\<close>: \<^verbatim>\<open>createAllInputs_\<close> throws the error naming \<open>x\<close> exactly when the first
  component of the procCode, trimmed, begins with \<^verbatim>\<open>%\<close> followed by \<open>x\<close>; it then
  throws before it has created any input or touched the connection map. Such a marker
  anywhere else is label text.
\<close>

theorem createAllInputs_invalid_letter:
  assumes "x \<notin> {CHR ''n'', CHR ''b'', CHR ''s'', percent}"
  shows "(fst (createAllInputs this cm ws) = Some (InvalidType [x])
            \<longleftrightarrow> take 2 (hd (procComponents (procCode this))) = [percent, x])
       \<and> (take 2 (hd (procComponents (procCode this))) = [percent, x]
            \<longrightarrow> createAllInputs this cm ws = (Some (InvalidType [x]), cm, this, ws))"
proof -
  obtain p ps where comps: "procComponents (procCode this) = trim p # map trim ps"
    and later: "\<forall>q \<in> set ps. laterPiece q"
    using procComponents_Cons by blast
  let ?c = "trim p"
  have laterOK: "\<forall>c \<in> set (map trim ps). substring c 0 1 = ''%'' \<longrightarrow>
             substring c 1 2 \<in> {NUMBER, BOOLEAN, STRING, [], [percent]}"
    using later laterPiece_trim by auto
  have xs: "[x] \<noteq> [] \<and> [x] \<noteq> [percent] \<and> \<not> validType [x]"
    using assms by (auto simp: validType_def NUMBER_def BOOLEAN_def STRING_def)
  have right: "createAllInputs this cm ws = (Some (InvalidType [x]), cm, this, ws)"
    if t2: "take 2 ?c = [percent, x]"
  proof -
    from t2 have a: "substring ?c 0 1 = ''%''"
      by (cases ?c) (auto simp: substring_def percent_def)
    from t2 have b: "substring ?c 1 2 = [x]"
      by (cases ?c; cases "tl ?c") (auto simp: substring_def)
    from loop_invalid [OF a] b xs show ?thesis
      by (simp add: createAllInputs_def comps)
  qed
  have left: "take 2 ?c = [percent, x]"
    if err: "fst (createAllInputs this cm ws) = Some (InvalidType [x])"
  proof -
    obtain r where loop: "createAllInputsLoop (?c # map trim ps) 0 cm this ws = (Some (InvalidType [x]), r)"
      using err by (cases "createAllInputs this cm ws") (auto simp: createAllInputs_def comps)
    show ?thesis
    proof (cases "substring ?c 0 1 = ''%''")
      case False
      from loop_label [OF False] loop loop_later_error [OF laterOK] xs show ?thesis by metis
    next
      case True
      show ?thesis
      proof (cases "validType (substring ?c 1 2)")
        case False
        from loop_invalid [OF True False] loop have "substring ?c 1 2 = [x]" by simp
        with True show ?thesis
          by (cases ?c; cases "tl ?c") (auto simp: substring_def percent_def)
      next
        case valid: True
        show ?thesis
        proof (cases "at (argumentIds this) 0 = None \<or> at (argumentIds this) 0 = Some []")
          case noname: True
          from loop_noname [OF True valid noname] loop show ?thesis by simp
        next
          case False
          then obtain ident where ident: "at (argumentIds this) 0 = Some ident" and ne: "ident \<noteq> []"
            by auto
          obtain e1 cm1 inp1 ws1 where pop:
            "populateArgument this (substring ?c 1 2) 0 cm ident
               (appendValueInput ident (substring ?c 1 2)) ws = (e1, cm1, inp1, ws1)"
            by (metis prod_cases4)
          show ?thesis
          proof (cases e1)
            case None
            from loop_arg_ok [OF True valid ident ne pop [unfolded None]] loop
              loop_later_error [OF laterOK] xs show ?thesis by metis
          next
            case (Some e)
            with pop have "e = TypeError" using populateArgument_error by blast
            with loop_arg_err [OF True valid ident ne pop [unfolded Some]] loop show ?thesis by simp
          qed
        qed
      qed
    qed
  qed
  from left right show ?thesis unfolding comps by auto
qed

text \<open>The theorem at \<^verbatim>\<open>%x say\<close>: the error names \<^verbatim>\<open>x\<close>.\<close>

theorem createAllInputs_invalid_letter_witness:
  "CHR ''x'' \<notin> {CHR ''n'', CHR ''b'', CHR ''s'', percent}
   \<and> take 2 (hd (procComponents (procCode (exampleCall\<lparr>procCode := ''%x say''\<rparr>)))) = [percent, CHR ''x'']
   \<and> createAllInputs (exampleCall\<lparr>procCode := ''%x say''\<rparr>) [] exampleWorkspace
       = (Some (InvalidType ''x''), [], exampleCall\<lparr>procCode := ''%x say''\<rparr>, exampleWorkspace)"
proof -
  have h: "CHR ''x'' \<notin> {CHR ''n'', CHR ''b'', CHR ''s'', percent}" by (simp add: percent_def)
  have t: "take 2 (hd (procComponents (procCode (exampleCall\<lparr>procCode := ''%x say''\<rparr>)))) = [percent, CHR ''x'']"
    by code_simp
  from createAllInputs_invalid_letter [OF h, of "exampleCall\<lparr>procCode := ''%x say''\<rparr>" "[]" exampleWorkspace] t h
  show ?thesis by blast
qed

text \<open>
  The claim fails at \<^verbatim>\<open>say %x\<close>: no error, and the marker becomes the text of the
  label.
\<close>

theorem invalid_marker_as_label_counterexample:
  "fst (createAllInputs (exampleCall\<lparr>procCode := ''say %x'', inputList := []\<rparr>) [] exampleWorkspace)
     = None
   \<and> inputList (fst (snd (snd (createAllInputs
         (exampleCall\<lparr>procCode := ''say %x'', inputList := []\<rparr>) [] exampleWorkspace))))
     = [DUMMY ''say %x'']"
  by code_simp

section \<open>Deleting a definition\<close>

lemma getCallers_empty_iff:
  "getCallers procName topBlocks definitionRoot False = [] \<longleftrightarrow>
     (\<forall>b \<in> set topBlocks. blockId b \<noteq> blockId definitionRoot \<longrightarrow>
        (\<forall>d \<in> set (getDescendants b).
           \<not> (blockType d = ''procedures_call'' \<and> getProcCode d = procName)))"
proof (induction topBlocks)
  case Nil
  then show ?case by (simp add: getCallers_def)
next
  case (Cons b bs)
  have "getCallers procName (b # bs) definitionRoot False =
          (if blockId b = blockId definitionRoot then []
           else filter (\<lambda>d. isProcedureBlock d \<and> blockType d = PROCEDURES_CALL_BLOCK_TYPE \<and>
                          getProcCode d = procName) (getDescendants b))
          @ getCallers procName bs definitionRoot False"
    by (simp add: getCallers_def)
  with Cons.IH show ?case
    by (auto simp: isProcedureBlock_def PROCEDURES_CALL_BLOCK_TYPE_def filter_empty_conv)
qed

text \<open>
  Claim C3. \<^verbatim>\<open>deleteProcedureDefCallback\<close> returns true, and hands the definition root
  to the host's disposal, exactly when the search for callers with recursion excluded
  finds none; otherwise it returns false and the workspace is as before. The search
  finds none exactly when no top block other than the definition root has a
  \<^verbatim>\<open>procedures_call\<close> block of that procCode among its descendants.
\<close>

theorem deleteProcedureDefCallback_guard:
  "(fst (deleteProcedureDefCallback checkAndDelete procName definitionRoot topBlocks)
      \<longleftrightarrow> getCallers procName topBlocks definitionRoot False = [])
   \<and> (getCallers procName topBlocks definitionRoot False = [] \<longrightarrow>
        deleteProcedureDefCallback checkAndDelete procName definitionRoot topBlocks
          = (True, checkAndDelete definitionRoot topBlocks))
   \<and> (getCallers procName topBlocks definitionRoot False \<noteq> [] \<longrightarrow>
        deleteProcedureDefCallback checkAndDelete procName definitionRoot topBlocks
          = (False, topBlocks))
   \<and> (getCallers procName topBlocks definitionRoot False = [] \<longleftrightarrow>
        (\<forall>b \<in> set topBlocks. blockId b \<noteq> blockId definitionRoot \<longrightarrow>
          (\<forall>d \<in> set (getDescendants b).
             \<not> (blockType d = ''procedures_call'' \<and> getProcCode d = procName))))"
proof -
  have "fst (deleteProcedureDefCallback checkAndDelete procName definitionRoot topBlocks)
      \<longleftrightarrow> getCallers procName topBlocks definitionRoot False = []"
    by (simp add: deleteProcedureDefCallback_def Let_def)
  moreover have "getCallers procName topBlocks definitionRoot False = [] \<longrightarrow>
        deleteProcedureDefCallback checkAndDelete procName definitionRoot topBlocks
          = (True, checkAndDelete definitionRoot topBlocks)"
    by (simp add: deleteProcedureDefCallback_def Let_def)
  moreover have "getCallers procName topBlocks definitionRoot False \<noteq> [] \<longrightarrow>
        deleteProcedureDefCallback checkAndDelete procName definitionRoot topBlocks
          = (False, topBlocks)"
    by (simp add: deleteProcedureDefCallback_def Let_def)
  ultimately show ?thesis
    using getCallers_empty_iff [of procName topBlocks definitionRoot] by blast
qed

text \<open>
  The theorem on a workspace whose only call of \<^verbatim>\<open>f %s\<close> is the recursive one, and on
  one with a call in another script.
\<close>

theorem deleteProcedureDefCallback_guard_witness:
  "getCallers ''f %s'' [exampleDefinition, exampleScriptWithoutCall] exampleDefinition False = []
   \<and> deleteProcedureDefCallback exampleCheckAndDelete ''f %s'' exampleDefinition
        [exampleDefinition, exampleScriptWithoutCall] = (True, [exampleScriptWithoutCall])
   \<and> getCallers ''f %s'' [exampleDefinition, exampleScriptWithCall] exampleDefinition False \<noteq> []
   \<and> deleteProcedureDefCallback exampleCheckAndDelete ''f %s'' exampleDefinition
        [exampleDefinition, exampleScriptWithCall] = (False, [exampleDefinition, exampleScriptWithCall])"
proof -
  have a: "getCallers ''f %s'' [exampleDefinition, exampleScriptWithoutCall] exampleDefinition False = []"
    by code_simp
  have b: "getCallers ''f %s'' [exampleDefinition, exampleScriptWithCall] exampleDefinition False \<noteq> []"
    by code_simp
  have c: "exampleCheckAndDelete exampleDefinition [exampleDefinition, exampleScriptWithoutCall]
             = [exampleScriptWithoutCall]"
    by code_simp
  from a b c
    deleteProcedureDefCallback_guard [of exampleCheckAndDelete "''f %s''" exampleDefinition
      "[exampleDefinition, exampleScriptWithoutCall]"]
    deleteProcedureDefCallback_guard [of exampleCheckAndDelete "''f %s''" exampleDefinition
      "[exampleDefinition, exampleScriptWithCall]"]
  show ?thesis by simp
qed

section \<open>Loading and saving a mutation\<close>

lemma callerDomToMutation_fields:
  assumes "callerDomToMutation this xmlElement ws = (e, this', ws')"
  shows "procCode this' = attr_proccode xmlElement \<and> argumentIds this' = attr_argumentids xmlElement
       \<and> warp this' = attr_warp xmlElement
       \<and> generateShadows this' = (attr_generateshadows xmlElement = Some True)"
proof -
  from assms obtain l where
    "this' = this\<lparr>procCode := attr_proccode xmlElement,
             generateShadows := (case attr_generateshadows xmlElement of Some g \<Rightarrow> g | None \<Rightarrow> False),
             argumentIds := attr_argumentids xmlElement,
             warp := attr_warp xmlElement, inputList := l\<rparr>"
    unfolding callerDomToMutation_def using updateDisplay_frame by blast
  then show ?thesis by (auto split: option.splits)
qed

lemma definitionDomToMutation_fields:
  assumes "definitionDomToMutation this definitionDescendants xmlElement ws = (e, this', ws')"
  shows "procCode this' = attr_proccode xmlElement \<and> argumentIds this' = attr_argumentids xmlElement
       \<and> warp this' = attr_warp xmlElement \<and> displayNames this' = attr_argumentnames xmlElement
       \<and> argumentDefaults this' = attr_argumentdefaults xmlElement"
proof -
  let ?this1 = "this\<lparr>procCode := attr_proccode xmlElement, warp := attr_warp xmlElement,
                       argumentIds := attr_argumentids xmlElement,
                       displayNames := attr_argumentnames xmlElement,
                       argumentDefaults := attr_argumentdefaults xmlElement\<rparr>"
  obtain e1 this2 ws1 where u: "updateDisplay ?this1 ws = (e1, this2, ws1)"
    by (metis prod_cases3)
  from u obtain l where l: "this2 = ?this1\<lparr>inputList := l\<rparr>"
    using updateDisplay_frame by blast
  from assms u have "this' = this2"
    by (auto simp: definitionDomToMutation_def Let_def split: option.splits if_splits)
  with l show ?thesis by simp
qed

text \<open>
  Claim C9, as the code has it. The claim says that loading a persisted record into a
  block and saving it back reproduces, for a call site, the procCode, the argument IDs,
  the warp flag and \<^verbatim>\<open>generateShadows\<close>, and for definitions and prototypes the
  argument names and defaults as well. The call block reads \<^verbatim>\<open>generateshadows\<close> but
  \<^verbatim>\<open>callerMutationToDom\<close> never writes it. What holds: whatever the load did to the
  inputs, and whether or not it threw, a call block saves the procCode, the argument
  IDs and the warp flag it was loaded with and no \<^verbatim>\<open>generateshadows\<close> attribute; a
  prototype or declaration saves the procCode, the argument IDs, names and defaults and
  the warp flag it was loaded with, and \<^verbatim>\<open>generateshadows="true"\<close> only when asked to.
\<close>

theorem mutation_load_save:
  "callerMutationToDom (fst (snd (callerDomToMutation this callerElement ws)))
     = \<lparr>attr_proccode = attr_proccode callerElement,
        attr_argumentids = attr_argumentids callerElement,
        attr_warp = attr_warp callerElement, attr_generateshadows = None\<rparr>
   \<and> definitionMutationToDom
         (fst (snd (definitionDomToMutation that definitionDescendants xmlElement ws'))) opt
     = xmlElement\<lparr>attr_generateshadows := (if opt then Some True else None)\<rparr>"
proof -
  obtain e1 t1 w1 where a: "callerDomToMutation this callerElement ws = (e1, t1, w1)"
    by (metis prod_cases3)
  obtain e2 t2 w2 where b: "definitionDomToMutation that definitionDescendants xmlElement ws' = (e2, t2, w2)"
    by (metis prod_cases3)
  from callerDomToMutation_fields [OF a] definitionDomToMutation_fields [OF b] a b
  show ?thesis by (simp add: callerMutationToDom_def definitionMutationToDom_def)
qed

text \<open>The theorem on the example call block and the example prototype.\<close>

theorem mutation_load_save_witness:
  "callerMutationToDom (fst (snd (callerDomToMutation exampleCall
       \<lparr>attr_proccode = ''say %s %b'', attr_argumentids = [''a'', ''b''], attr_warp = True,
        attr_generateshadows = None\<rparr> exampleWorkspace)))
     = \<lparr>attr_proccode = ''say %s %b'', attr_argumentids = [''a'', ''b''], attr_warp = True,
        attr_generateshadows = None\<rparr>
   \<and> definitionMutationToDom (fst (snd (definitionDomToMutation examplePrototype (Some [6, 7])
       \<lparr>attr_proccode = ''g %b'', attr_argumentids = [''b''], attr_warp = True,
        attr_generateshadows = None, attr_argumentnames = [''flag''],
        attr_argumentdefaults = [''false'']\<rparr> exampleWorkspace))) False
     = \<lparr>attr_proccode = ''g %b'', attr_argumentids = [''b''], attr_warp = True,
        attr_generateshadows = None, attr_argumentnames = [''flag''],
        attr_argumentdefaults = [''false'']\<rparr>"
  using mutation_load_save [of exampleCall
      "\<lparr>attr_proccode = ''say %s %b'', attr_argumentids = [''a'', ''b''], attr_warp = True,
        attr_generateshadows = None\<rparr>" exampleWorkspace examplePrototype "Some [6, 7]"
      "\<lparr>attr_proccode = ''g %b'', attr_argumentids = [''b''], attr_warp = True,
        attr_generateshadows = None, attr_argumentnames = [''flag''],
        attr_argumentdefaults = [''false'']\<rparr>" exampleWorkspace False]
  by simp

text \<open>
  The claim fails on a call-site record with \<^verbatim>\<open>generateShadows\<close> set: the block takes the
  flag, and the saved element has no such attribute.
\<close>

theorem generateShadows_not_saved_counterexample:
  "generateShadows (fst (snd (callerDomToMutation exampleCall
       \<lparr>attr_proccode = ''say %s'', attr_argumentids = [''a''], attr_warp = False,
        attr_generateshadows = Some True\<rparr> exampleWorkspace)))
   \<and> attr_generateshadows (callerMutationToDom (fst (snd (callerDomToMutation exampleCall
       \<lparr>attr_proccode = ''say %s'', attr_argumentids = [''a''], attr_warp = False,
        attr_generateshadows = Some True\<rparr> exampleWorkspace)))) \<noteq> Some True"
  by code_simp

section \<open>A parse error in the middle of a mutation\<close>

text \<open>
  Claim C2, as the code has it. The claim says that a procCode that fails to parse leaves
  the block unchanged, nothing being removed or disconnected before the signature has
  been validated. \<^verbatim>\<open>updateDisplay_\<close> has no validation step: it parses while it
  rebuilds, after phases 1 and 2. What holds: when the first component of the procCode,
  trimmed, begins with \<^verbatim>\<open>%\<close> followed by anything but \<^verbatim>\<open>n\<close>, \<^verbatim>\<open>b\<close>, \<^verbatim>\<open>s\<close>,
  \<^verbatim>\<open>updateDisplay_\<close> throws the error naming that type with every input of the block
  removed, and so every attached block disconnected; no input is rebuilt, and the
  workspace is untouched, no saved shadow being disposed.
\<close>

theorem updateDisplay_parse_error:
  assumes "substring (hd (procComponents (procCode this))) 0 1 = ''%''"
    and "\<not> validType (substring (hd (procComponents (procCode this))) 1 2)"
  shows "updateDisplay this ws =
           (Some (InvalidType (substring (hd (procComponents (procCode this))) 1 2)),
            this\<lparr>inputList := []\<rparr>, ws)"
proof -
  obtain p ps where comps: "procComponents (procCode this) = trim p # map trim ps"
    using procComponents_Cons by blast
  obtain this1 cm where d: "disconnectOldBlocks this = (this1, cm)"
    by (cases "disconnectOldBlocks this")
  from d obtain l1 where this1: "this1 = this\<lparr>inputList := l1\<rparr>"
    using disconnectOldBlocks_frame [of this] by auto
  have r: "removeAllInputs this1 = this\<lparr>inputList := []\<rparr>"
    by (simp add: this1 removeAllInputs_def)
  from assms comps have a: "substring (trim p) 0 1 = ''%''" and b: "\<not> validType (substring (trim p) 1 2)"
    by simp_all
  have "createAllInputs (this\<lparr>inputList := []\<rparr>) cm ws =
          (Some (InvalidType (substring (trim p) 1 2)), cm, this\<lparr>inputList := []\<rparr>, ws)"
    using loop_invalid [OF a b] by (simp add: createAllInputs_def comps)
  with d r comps show ?thesis by (simp add: updateDisplay_def)
qed

text \<open>
  The theorem on the example call block with its two attached blocks, for the procCode
  \<^verbatim>\<open>%x\<close>.
\<close>

theorem updateDisplay_parse_error_witness:
  "substring (hd (procComponents (procCode (exampleCall2\<lparr>procCode := ''%x''\<rparr>)))) 0 1 = ''%''
   \<and> \<not> validType (substring (hd (procComponents (procCode (exampleCall2\<lparr>procCode := ''%x''\<rparr>)))) 1 2)
   \<and> updateDisplay (exampleCall2\<lparr>procCode := ''%x''\<rparr>) exampleWorkspace =
        (Some (InvalidType ''x''), exampleCall2\<lparr>procCode := ''%x'', inputList := []\<rparr>,
         exampleWorkspace)"
proof -
  have a: "substring (hd (procComponents (procCode (exampleCall2\<lparr>procCode := ''%x''\<rparr>)))) 0 1 = ''%''"
    by code_simp
  have b: "\<not> validType (substring (hd (procComponents (procCode (exampleCall2\<lparr>procCode := ''%x''\<rparr>)))) 1 2)"
    by code_simp
  have c: "substring (hd (procComponents (procCode (exampleCall2\<lparr>procCode := ''%x''\<rparr>)))) 1 2 = ''x''"
    by code_simp
  from updateDisplay_parse_error [OF a b, of exampleWorkspace] a b c show ?thesis by simp
qed

text \<open>
  The claim fails on the example call block when a mutation with the procCode
  \<^verbatim>\<open>%x\<close> arrives: the error is thrown, and the block has lost its three inputs and
  taken the new procCode.
\<close>

theorem parse_error_not_atomic_counterexample:
  "fst (callerDomToMutation exampleCall2
         \<lparr>attr_proccode = ''%x'', attr_argumentids = [''a'', ''b''], attr_warp = False,
          attr_generateshadows = None\<rparr> exampleWorkspace) = Some (InvalidType ''x'')
   \<and> inputList exampleCall2 \<noteq> []
   \<and> inputList (fst (snd (callerDomToMutation exampleCall2
         \<lparr>attr_proccode = ''%x'', attr_argumentids = [''a'', ''b''], attr_warp = False,
          attr_generateshadows = None\<rparr> exampleWorkspace))) = []
   \<and> procCode (fst (snd (callerDomToMutation exampleCall2
         \<lparr>attr_proccode = ''%x'', attr_argumentids = [''a'', ''b''], attr_warp = False,
          attr_generateshadows = None\<rparr> exampleWorkspace))) \<noteq> procCode exampleCall2"
  by code_simp

section \<open>Default shadows on a call block\<close>

text \<open>
  Claim C4, as the code has it. The claim gives a \<^verbatim>\<open>math_number\<close> shadow prefilled
  \<^verbatim>\<open>"1"\<close> to numeric and to string-or-number slots. \<^verbatim>\<open>attachShadow_\<close> tells the two
  apart. What holds on a call block that generates shadows, for a slot with no saved
  block to reattach: a \<^verbatim>\<open>%n\<close> slot gets a new \<^verbatim>\<open>math_number\<close> shadow whose \<^verbatim>\<open>NUM\<close>
  field is \<^verbatim>\<open>"1"\<close>, a \<^verbatim>\<open>%s\<close> slot gets a new \<^verbatim>\<open>text\<close> shadow whose \<^verbatim>\<open>TEXT\<close> field is
  empty, and a \<^verbatim>\<open>%b\<close> slot gets nothing: the input, the map and the workspace stay as
  they are.
\<close>

theorem populateArgumentOnCaller_default_shadow:
  assumes "generateShadows this"
    and "map_of connectionMap ident = None
         \<or> (\<exists>saved. map_of connectionMap ident = Some (Some saved) \<and> block saved = None)"
  shows "(type = NUMBER \<longrightarrow>
            (case populateArgumentOnCaller this type index connectionMap ident inp ws of
               (e, cm', inp', ws') \<Rightarrow>
                 e = None \<and> cm' = connectionMap \<and> targetBlock inp' = Some (nextId ws) \<and>
                 btype (blocks ws' (nextId ws)) = ''math_number'' \<and>
                 fieldValue (blocks ws' (nextId ws)) ''NUM'' = Some ''1'' \<and>
                 isShadow (blocks ws' (nextId ws))))
       \<and> (type = STRING \<longrightarrow>
            (case populateArgumentOnCaller this type index connectionMap ident inp ws of
               (e, cm', inp', ws') \<Rightarrow>
                 e = None \<and> cm' = connectionMap \<and> targetBlock inp' = Some (nextId ws) \<and>
                 btype (blocks ws' (nextId ws)) = ''text'' \<and>
                 fieldValue (blocks ws' (nextId ws)) ''TEXT'' = Some '''' \<and>
                 isShadow (blocks ws' (nextId ws))))
       \<and> (type = BOOLEAN \<longrightarrow>
            populateArgumentOnCaller this type index connectionMap ident inp ws
              = (None, connectionMap, inp, ws))"
proof -
  have old: "(case map_of connectionMap ident of Some (Some saved) \<Rightarrow> block saved | _ \<Rightarrow> None) = None"
    using assms(2) by (auto split: option.splits)
  have notnull: "map_of connectionMap ident \<noteq> Some None" using assms(2) by auto
  have eq: "populateArgumentOnCaller this type index connectionMap ident inp ws =
              (let (inp1, ws1) = attachShadow inp type ws in (None, connectionMap, inp1, ws1))"
    using assms(1) old notnull
    by (cases "map_of connectionMap ident")
       (auto simp: populateArgumentOnCaller_def Let_def split: option.splits)
  show ?thesis
    unfolding eq
    by (simp add: attachShadow_def newBlock_def setFieldValue_def setShadow_def
          NUMBER_def STRING_def BOOLEAN_def Let_def)
qed

text \<open>The theorem on the example call block, whose slot \<open>a\<close> is a \<^verbatim>\<open>%s\<close> slot.\<close>

theorem populateArgumentOnCaller_default_shadow_witness:
  "generateShadows exampleCall
   \<and> map_of [(''a'', Some \<lparr>shadow = None, block = None\<rparr>)] ''a''
        = Some (Some \<lparr>shadow = None, block = None\<rparr>)
   \<and> (case populateArgumentOnCaller exampleCall STRING 0
             [(''a'', Some \<lparr>shadow = None, block = None\<rparr>)] ''a''
             (appendValueInput ''a'' STRING) exampleWorkspace of
         (e, cm', inp', ws') \<Rightarrow>
           e = None \<and> targetBlock inp' = Some 10 \<and> btype (blocks ws' 10) = ''text'' \<and>
           fieldValue (blocks ws' 10) ''TEXT'' = Some '''' \<and> isShadow (blocks ws' 10))"
proof -
  have g: "generateShadows exampleCall" by (simp add: exampleCall_def)
  have m: "map_of [(''a'', Some \<lparr>shadow = None, block = None\<rparr>)] ''a''
             = Some (Some \<lparr>shadow = None, block = None\<rparr>)" by simp
  have h: "map_of [(''a'', Some \<lparr>shadow = None, block = None\<rparr>)] ''a'' = None
         \<or> (\<exists>saved. map_of [(''a'', Some \<lparr>shadow = None, block = None\<rparr>)] ''a'' = Some (Some saved)
               \<and> block saved = None)" by simp
  have n: "nextId exampleWorkspace = 10" by (simp add: exampleWorkspace_def)
  from populateArgumentOnCaller_default_shadow [OF g h, where type = STRING and index = 0
      and inp = "appendValueInput ''a'' STRING" and ws = exampleWorkspace] g m n
  show ?thesis by (auto split: prod.splits)
qed

text \<open>
  The claim fails on the example call block of \<^verbatim>\<open>say %s\<close>: the shadow synthesized
  for its string-or-number slot is a \<^verbatim>\<open>text\<close> block with an empty field, not a
  \<^verbatim>\<open>math_number\<close> block.
\<close>

theorem string_slot_shadow_counterexample:
  "fst (updateDisplay exampleCall exampleWorkspace) = None
   \<and> inputList (fst (snd (updateDisplay exampleCall exampleWorkspace)))
       = [DUMMY ''say'',
          VALUE \<lparr>name = ''a'', check = None, targetBlock = Some 10, getShadowDom = None\<rparr>,
          DUMMY '''']
   \<and> btype (blocks (snd (snd (updateDisplay exampleCall exampleWorkspace))) 10) = ''text''
   \<and> btype (blocks (snd (snd (updateDisplay exampleCall exampleWorkspace))) 10) \<noteq> ''math_number''
   \<and> fieldValue (blocks (snd (snd (updateDisplay exampleCall exampleWorkspace))) 10) ''TEXT''
       = Some ''''
   \<and> fieldValue (blocks (snd (snd (updateDisplay exampleCall exampleWorkspace))) 10) ''NUM''
       = None"
  by code_simp

section \<open>Argument editors on a declaration\<close>

text \<open>
  Claim C5 on the code. The declaration holds the argument editor 3, of the kind of its
  \<^verbatim>\<open>%s\<close> slot, and the display name changes to \<^verbatim>\<open>new\<close>. The editor is not reused:
  \<^verbatim>\<open>checkOldTypeMatches_\<close> looks for argument reporters, so a new editor (block 10) is
  created and connected, and the old one is disposed with its old text.
\<close>

theorem declaration_editor_not_reused:
  "fst (updateDisplay (exampleDeclaration\<lparr>displayNames := [''new'']\<rparr>) exampleWorkspace) = None
   \<and> inputList (fst (snd (updateDisplay (exampleDeclaration\<lparr>displayNames := [''new'']\<rparr>)
         exampleWorkspace)))
       = [VALUE \<lparr>name = ''a'', check = None, targetBlock = Some 10, getShadowDom = None\<rparr>]
   \<and> btype (blocks (snd (snd (updateDisplay (exampleDeclaration\<lparr>displayNames := [''new'']\<rparr>)
         exampleWorkspace))) 10) = ''argument_editor_string_number''
   \<and> fieldValue (blocks (snd (snd (updateDisplay (exampleDeclaration\<lparr>displayNames := [''new'']\<rparr>)
         exampleWorkspace))) 10) ''TEXT'' = Some ''new''
   \<and> disposed (blocks (snd (snd (updateDisplay (exampleDeclaration\<lparr>displayNames := [''new'']\<rparr>)
         exampleWorkspace))) 3)
   \<and> fieldValue (blocks (snd (snd (updateDisplay (exampleDeclaration\<lparr>displayNames := [''new'']\<rparr>)
         exampleWorkspace))) 3) ''TEXT'' = Some ''old''"
  by code_simp

section \<open>Renaming the reporters of a definition\<close>

subsection \<open>The field writes\<close>

lemma setFieldValue_other: "b' \<noteq> b \<Longrightarrow> blocks (setFieldValue b v f ws) b' = blocks ws b'"
  by (cases v) (simp_all add: setFieldValue_def)

lemma setFieldValue_frame:
  "btype (blocks (setFieldValue b v f ws) b') = btype (blocks ws b')
   \<and> isShadow (blocks (setFieldValue b v f ws) b') = isShadow (blocks ws b')
   \<and> disposed (blocks (setFieldValue b v f ws) b') = disposed (blocks ws b')
   \<and> nextId (setFieldValue b v f ws) = nextId ws
   \<and> (g \<noteq> f \<longrightarrow> fieldValue (blocks (setFieldValue b v f ws) b') g = fieldValue (blocks ws b') g)"
  by (cases v) (simp_all add: setFieldValue_def)

lemma setFieldValue_same:
  "fieldValue (blocks (setFieldValue b (Some txt) f ws) b) f = Some txt"
  by (simp add: setFieldValue_def)

lemma applyRenames_snoc:
  "applyRenames (calls @ [(b, n)]) ws = setFieldValue b n ''VALUE'' (applyRenames calls ws)"
  by (simp add: applyRenames_def)

lemma applyRenames_other:
  "b \<notin> fst ` set calls \<Longrightarrow> blocks (applyRenames calls ws) b = blocks ws b"
proof (induction calls rule: rev_induct)
  case Nil
  then show ?case by (simp add: applyRenames_def)
next
  case (snoc c calls)
  obtain b' n where c: "c = (b', n)" by (cases c)
  with snoc.prems have "b' \<noteq> b" and "b \<notin> fst ` set calls" by auto
  with snoc.IH show ?case by (simp add: c applyRenames_snoc setFieldValue_other)
qed

lemma applyRenames_frame:
  "btype (blocks (applyRenames calls ws) b) = btype (blocks ws b)
   \<and> isShadow (blocks (applyRenames calls ws) b) = isShadow (blocks ws b)
   \<and> disposed (blocks (applyRenames calls ws) b) = disposed (blocks ws b)
   \<and> nextId (applyRenames calls ws) = nextId ws
   \<and> (g \<noteq> ''VALUE'' \<longrightarrow> fieldValue (blocks (applyRenames calls ws) b) g = fieldValue (blocks ws b) g)"
proof (induction calls rule: rev_induct)
  case Nil
  then show ?case by (simp add: applyRenames_def)
next
  case (snoc c calls)
  obtain b' n where c: "c = (b', n)" by (cases c)
  from snoc.IH setFieldValue_frame [of b' n "''VALUE''" "applyRenames calls ws" b g]
  show ?case by (simp add: c applyRenames_snoc)
qed

lemma applyRenames_value:
  assumes "\<exists>nm. (b, Some nm) \<in> set calls"
  shows "\<exists>nm. (b, Some nm) \<in> set calls
           \<and> fieldValue (blocks (applyRenames calls ws) b) ''VALUE'' = Some nm"
  using assms
proof (induction calls rule: rev_induct)
  case Nil
  then show ?case by simp
next
  case (snoc c calls)
  obtain b' n where c: "c = (b', n)" by (cases c)
  show ?case
  proof (cases "b' = b \<and> n \<noteq> None")
    case True
    then obtain nm where "n = Some nm" by auto
    with True show ?thesis by (auto simp: c applyRenames_snoc setFieldValue_same)
  next
    case False
    with snoc.prems c have "\<exists>nm. (b, Some nm) \<in> set calls" by auto
    from snoc.IH [OF this] obtain nm where nm: "(b, Some nm) \<in> set calls"
      and v: "fieldValue (blocks (applyRenames calls ws) b) ''VALUE'' = Some nm" by blast
    have "blocks (setFieldValue b' n ''VALUE'' (applyRenames calls ws)) b
            = blocks (applyRenames calls ws) b"
      using False by (cases n) (auto simp: setFieldValue_def)
    with nm v show ?thesis by (auto simp: c applyRenames_snoc)
  qed
qed

lemma applyRenames_unnamed:
  assumes "\<forall>n. (b, n) \<in> set calls \<longrightarrow> n = None"
  shows "blocks (applyRenames calls ws) b = blocks ws b"
  using assms
proof (induction calls rule: rev_induct)
  case Nil
  then show ?case by (simp add: applyRenames_def)
next
  case (snoc c calls)
  obtain b' n where c: "c = (b', n)" by (cases c)
  have "blocks (setFieldValue b' n ''VALUE'' (applyRenames calls ws)) b
          = blocks (applyRenames calls ws) b"
    using snoc.prems c by (cases n) (auto simp: setFieldValue_def)
  with snoc show ?case by (simp add: c applyRenames_snoc)
qed

lemma applyRenames_distinct:
  assumes "distinct (map fst calls)" and "(b, Some nm) \<in> set calls"
  shows "fieldValue (blocks (applyRenames calls ws) b) ''VALUE'' = Some nm"
proof -
  from assms(2) have "\<exists>nm. (b, Some nm) \<in> set calls" by blast
  from applyRenames_value [OF this] obtain nm' where "(b, Some nm') \<in> set calls"
    and v: "fieldValue (blocks (applyRenames calls ws) b) ''VALUE'' = Some nm'" by blast
  with assms have "Some nm' = Some nm" by (meson eq_key_imp_eq_value)
  with v show ?thesis by simp
qed

subsection \<open>The name changes\<close>

lemma indexOf_Some: "indexOf xs x = Some k \<Longrightarrow> k < length xs \<and> xs ! k = x"
  by (induction xs arbitrary: k) (auto split: if_splits)

lemma renameCalls_Cons:
  "renameCalls (nc # ncs) = map (\<lambda>b. (b, newName nc)) (changedBlocks nc) @ renameCalls ncs"
  by (simp add: renameCalls_def)

lemma renameCalls_Nil: "renameCalls [] = []"
  by (simp add: renameCalls_def)

lemma nameChangesFrom_step:
  "ident \<noteq> [] \<Longrightarrow>
   renameCalls (nameChangesFrom (ident # rest) i this prev old reps ws) =
     (case indexOf prev ident of
        None \<Rightarrow> []
      | Some k \<Rightarrow> if at old k \<noteq> at (displayNames this) i
                  then map (\<lambda>b. (b, at (displayNames this) i)) (filter (fieldIs ws (at old k)) reps)
                  else [])
     @ renameCalls (nameChangesFrom rest (Suc i) this prev old reps ws)"
  by (simp add: renameCalls_Cons Let_def split: option.splits)

lemma calls_sound:
  "(b, nw) \<in> set (renameCalls (nameChangesFrom suf i this prev old reps ws)) \<Longrightarrow>
   \<exists>j k. j < length suf \<and> indexOf prev (suf ! j) = Some k
        \<and> at old k \<noteq> at (displayNames this) (i + j) \<and> nw = at (displayNames this) (i + j)
        \<and> b \<in> set reps \<and> fieldIs ws (at old k) b"
proof (induction suf arbitrary: i)
  case Nil
  then show ?case by (simp add: renameCalls_Nil)
next
  case (Cons ident rest)
  show ?case
  proof (cases "ident = []")
    case True
    with Cons.prems show ?thesis by (simp add: renameCalls_Nil)
  next
    case False
    note step = nameChangesFrom_step [OF False, of rest i this prev old reps ws]
    show ?thesis
    proof (cases "(b, nw) \<in> set (renameCalls (nameChangesFrom rest (Suc i) this prev old reps ws))")
      case True
      from Cons.IH [OF True] obtain j k where "j < length rest" "indexOf prev (rest ! j) = Some k"
        "at old k \<noteq> at (displayNames this) (Suc i + j)" "nw = at (displayNames this) (Suc i + j)"
        "b \<in> set reps" "fieldIs ws (at old k) b" by blast
      then have "Suc j < length (ident # rest) \<and> indexOf prev ((ident # rest) ! Suc j) = Some k
        \<and> at old k \<noteq> at (displayNames this) (i + Suc j) \<and> nw = at (displayNames this) (i + Suc j)
        \<and> b \<in> set reps \<and> fieldIs ws (at old k) b" by simp
      then show ?thesis by blast
    next
      case notrest: False
      with Cons.prems step obtain k where "indexOf prev ident = Some k"
        "at old k \<noteq> at (displayNames this) i" "nw = at (displayNames this) i"
        "b \<in> set reps" "fieldIs ws (at old k) b"
        by (auto split: option.splits if_splits)
      then have "0 < length (ident # rest) \<and> indexOf prev ((ident # rest) ! 0) = Some k
        \<and> at old k \<noteq> at (displayNames this) (i + 0) \<and> nw = at (displayNames this) (i + 0)
        \<and> b \<in> set reps \<and> fieldIs ws (at old k) b" by simp
      then show ?thesis by blast
    qed
  qed
qed

lemma calls_complete:
  "[] \<notin> set suf \<Longrightarrow> j < length suf \<Longrightarrow> indexOf prev (suf ! j) = Some k \<Longrightarrow>
   at old k \<noteq> at (displayNames this) (i + j) \<Longrightarrow> b \<in> set reps \<Longrightarrow> fieldIs ws (at old k) b \<Longrightarrow>
   (b, at (displayNames this) (i + j)) \<in> set (renameCalls (nameChangesFrom suf i this prev old reps ws))"
proof (induction suf arbitrary: i j)
  case Nil
  then show ?case by simp
next
  case (Cons ident rest)
  from Cons.prems(1) have ne: "ident \<noteq> []" and rest: "[] \<notin> set rest" by auto
  note step = nameChangesFrom_step [OF ne, of rest i this prev old reps ws]
  show ?case
  proof (cases j)
    case 0
    with Cons.prems step show ?thesis by auto
  next
    case (Suc j')
    with Cons.prems have "j' < length rest" "indexOf prev (rest ! j') = Some k"
      "at old k \<noteq> at (displayNames this) (Suc i + j')" by auto
    from Cons.IH [OF rest this Cons.prems(5,6)] Suc step show ?thesis by auto
  qed
qed

lemma fieldIs_label:
  "fieldValue (blocks ws b) ''VALUE'' = Some v \<Longrightarrow> fieldIs ws n b \<longleftrightarrow> n = Some v"
  by (cases n) (auto simp: fieldIs_def)

lemma fieldIs_has_label: "fieldIs ws n b \<Longrightarrow> \<exists>v. n = Some v \<and> fieldValue (blocks ws b) ''VALUE'' = Some v"
  by (cases n) (auto simp: fieldIs_def)

lemma at_Some: "j < length xs \<Longrightarrow> at xs j = Some (xs ! j)"
  by (simp add: at_def)

lemma argReportersOf_iff:
  "b \<in> set (argReportersOf descendants ws) \<longleftrightarrow>
     b \<in> set descendants
     \<and> (btype (blocks ws b) = ''argument_reporter_string_number''
          \<or> btype (blocks ws b) = ''argument_reporter_boolean'')
     \<and> \<not> isShadow (blocks ws b)"
  by (simp add: argReportersOf_def)

text \<open>
  Claim C7. After an edit of the display names, \<^verbatim>\<open>updateArgumentReporterNames_\<close> relabels
  exactly the blocks that are descendants of the definition block, of type
  \<^verbatim>\<open>argument_reporter_string_number\<close> or \<^verbatim>\<open>argument_reporter_boolean\<close>, not shadows,
  and labelled with the old display name of an argument that kept its ID and changed
  its name; each goes to the new display name of such an argument. Every other block
  keeps all its fields: blocks outside the definition's stack, blocks of other types,
  shadows (the reporters of the prototype itself among them), and reporters whose
  label matches no renamed argument; an ID that was not in the previous list gives no
  rename. No block changes its type, shadow flag or disposal state. The prototype is
  one that the host can display: its IDs are non-empty, as the names of its inputs
  (\<^verbatim>\<open>domToMutation\<close> calls \<^verbatim>\<open>updateDisplay_\<close> first, which throws at an empty ID, as
  lemma \<open>displayed_ids_nonempty\<close> shows), and every argument has a display name.
\<close>

theorem updateArgumentReporterNames_relabels:
  assumes "[] \<notin> set (argumentIds this)"
    and "length (displayNames this) = length (argumentIds this)"
  shows "(\<forall>b. b \<in> set descendants
              \<and> (btype (blocks ws b) = ''argument_reporter_string_number''
                   \<or> btype (blocks ws b) = ''argument_reporter_boolean'')
              \<and> \<not> isShadow (blocks ws b)
              \<and> (\<exists>v j. fieldValue (blocks ws b) ''VALUE'' = Some v
                     \<and> renamePair this prevArgIds prevDisplayNames v j)
            \<longrightarrow> (\<exists>v j. fieldValue (blocks ws b) ''VALUE'' = Some v
                     \<and> renamePair this prevArgIds prevDisplayNames v j
                     \<and> fieldValue (blocks (updateArgumentReporterNames this (Some descendants)
                           prevArgIds prevDisplayNames ws) b) ''VALUE''
                         = Some (displayNames this ! j)))
       \<and> (\<forall>b. \<not> (b \<in> set descendants
                 \<and> (btype (blocks ws b) = ''argument_reporter_string_number''
                      \<or> btype (blocks ws b) = ''argument_reporter_boolean'')
                 \<and> \<not> isShadow (blocks ws b)
                 \<and> (\<exists>v j. fieldValue (blocks ws b) ''VALUE'' = Some v
                        \<and> renamePair this prevArgIds prevDisplayNames v j))
            \<longrightarrow> blocks (updateArgumentReporterNames this (Some descendants)
                    prevArgIds prevDisplayNames ws) b = blocks ws b)
       \<and> (\<forall>b. btype (blocks (updateArgumentReporterNames this (Some descendants)
                    prevArgIds prevDisplayNames ws) b) = btype (blocks ws b)
             \<and> isShadow (blocks (updateArgumentReporterNames this (Some descendants)
                    prevArgIds prevDisplayNames ws) b) = isShadow (blocks ws b)
             \<and> disposed (blocks (updateArgumentReporterNames this (Some descendants)
                    prevArgIds prevDisplayNames ws) b) = disposed (blocks ws b))"
proof -
  let ?reps = "argReportersOf descendants ws"
  let ?calls = "renameCalls (nameChangesFrom (argumentIds this) 0 this prevArgIds prevDisplayNames
                  ?reps ws)"
  let ?ws' = "updateArgumentReporterNames this (Some descendants) prevArgIds prevDisplayNames ws"
  let ?reporter = "\<lambda>b. b \<in> set descendants
              \<and> (btype (blocks ws b) = ''argument_reporter_string_number''
                   \<or> btype (blocks ws b) = ''argument_reporter_boolean'')
              \<and> \<not> isShadow (blocks ws b)"
  have reps: "b \<in> set ?reps \<longleftrightarrow> ?reporter b" for b by (rule argReportersOf_iff)
  have ws': "?ws' = applyRenames ?calls ws"
    by (simp add: updateArgumentReporterNames_def Let_def)
  have sound: "?reporter b \<and> (\<exists>v j. fieldValue (blocks ws b) ''VALUE'' = Some v
                 \<and> renamePair this prevArgIds prevDisplayNames v j \<and> nw = Some (displayNames this ! j))"
    if "(b, nw) \<in> set ?calls" for b nw
  proof -
    from calls_sound [OF that] obtain j k where j: "j < length (argumentIds this)"
      and k: "indexOf prevArgIds (argumentIds this ! j) = Some k"
      and ne: "at prevDisplayNames k \<noteq> at (displayNames this) j"
      and nw: "nw = at (displayNames this) j"
      and b: "b \<in> set ?reps" and f: "fieldIs ws (at prevDisplayNames k) b" by auto
    from fieldIs_has_label [OF f] obtain v where v: "at prevDisplayNames k = Some v"
      "fieldValue (blocks ws b) ''VALUE'' = Some v" by blast
    from j k v ne have "renamePair this prevArgIds prevDisplayNames v j"
      by (auto simp: renamePair_def)
    moreover from nw j assms(2) have "nw = Some (displayNames this ! j)" by (simp add: at_Some)
    moreover from b reps have "?reporter b" by blast
    ultimately show ?thesis using v by blast
  qed
  have A: "\<exists>v j. fieldValue (blocks ws b) ''VALUE'' = Some v
                     \<and> renamePair this prevArgIds prevDisplayNames v j
                     \<and> fieldValue (blocks ?ws' b) ''VALUE'' = Some (displayNames this ! j)"
    if rb: "?reporter b" and ex: "\<exists>v j. fieldValue (blocks ws b) ''VALUE'' = Some v
                     \<and> renamePair this prevArgIds prevDisplayNames v j" for b
  proof -
    from rb reps have b: "b \<in> set ?reps" by blast
    from ex obtain v j k where v: "fieldValue (blocks ws b) ''VALUE'' = Some v"
      and j: "j < length (argumentIds this)"
      and k: "indexOf prevArgIds (argumentIds this ! j) = Some k"
      and old: "at prevDisplayNames k = Some v" and new: "at (displayNames this) j \<noteq> Some v"
      by (auto simp: renamePair_def)
    have f: "fieldIs ws (at prevDisplayNames k) b" using v old by (simp add: fieldIs_label)
    from new old have ne: "at prevDisplayNames k \<noteq> at (displayNames this) (0 + j)" by simp
    from calls_complete [OF assms(1) j k ne b f]
    have "(b, Some (displayNames this ! j)) \<in> set ?calls" using j assms(2) by (simp add: at_Some)
    then have "\<exists>nm. (b, Some nm) \<in> set ?calls" by blast
    from applyRenames_value [OF this, of ws] obtain nm where c: "(b, Some nm) \<in> set ?calls"
      and fin: "fieldValue (blocks ?ws' b) ''VALUE'' = Some nm" unfolding ws' by blast
    from sound [OF c] fin show ?thesis by auto
  qed
  have B: "blocks ?ws' b = blocks ws b"
    if "\<not> (?reporter b \<and> (\<exists>v j. fieldValue (blocks ws b) ''VALUE'' = Some v
                        \<and> renamePair this prevArgIds prevDisplayNames v j))" for b
  proof -
    from that sound have "b \<notin> fst ` set ?calls" by force
    then show ?thesis unfolding ws' by (rule applyRenames_other)
  qed
  have C: "btype (blocks ?ws' b) = btype (blocks ws b)
         \<and> isShadow (blocks ?ws' b) = isShadow (blocks ws b)
         \<and> disposed (blocks ?ws' b) = disposed (blocks ws b)" for b
    unfolding ws' using applyRenames_frame [of ?calls ws b] by simp
  show ?thesis
  proof (intro conjI allI impI)
    fix b
    assume "b \<in> set descendants
              \<and> (btype (blocks ws b) = ''argument_reporter_string_number''
                   \<or> btype (blocks ws b) = ''argument_reporter_boolean'')
              \<and> \<not> isShadow (blocks ws b)
              \<and> (\<exists>v j. fieldValue (blocks ws b) ''VALUE'' = Some v
                     \<and> renamePair this prevArgIds prevDisplayNames v j)"
    then have "?reporter b" and "\<exists>v j. fieldValue (blocks ws b) ''VALUE'' = Some v
                     \<and> renamePair this prevArgIds prevDisplayNames v j" by blast+
    then show "\<exists>v j. fieldValue (blocks ws b) ''VALUE'' = Some v
                     \<and> renamePair this prevArgIds prevDisplayNames v j
                     \<and> fieldValue (blocks ?ws' b) ''VALUE'' = Some (displayNames this ! j)"
      by (rule A)
  next
    fix b
    assume "\<not> (b \<in> set descendants
                 \<and> (btype (blocks ws b) = ''argument_reporter_string_number''
                      \<or> btype (blocks ws b) = ''argument_reporter_boolean'')
                 \<and> \<not> isShadow (blocks ws b)
                 \<and> (\<exists>v j. fieldValue (blocks ws b) ''VALUE'' = Some v
                        \<and> renamePair this prevArgIds prevDisplayNames v j))"
    then have "\<not> (?reporter b \<and> (\<exists>v j. fieldValue (blocks ws b) ''VALUE'' = Some v
                        \<and> renamePair this prevArgIds prevDisplayNames v j))" by blast
    then show "blocks ?ws' b = blocks ws b" by (rule B)
  next
    fix b show "btype (blocks ?ws' b) = btype (blocks ws b)" using C by blast
  next
    fix b show "isShadow (blocks ?ws' b) = isShadow (blocks ws b)" using C by blast
  next
    fix b show "disposed (blocks ?ws' b) = disposed (blocks ws b)" using C by blast
  qed
qed

text \<open>
  The theorem on the prototype whose two display names were exchanged, with the blocks
  4 to 7 as the descendants of its definition: the reporter 6 in the definition body,
  no shadow and labelled \<open>x\<close>, becomes \<open>y\<close>; the reporter 4 of the prototype, a shadow
  with the same label, and the reporter 8 outside the definition, no shadow and with
  the same label, keep their blocks unchanged.
\<close>

theorem updateArgumentReporterNames_relabels_witness:
  "[] \<notin> set (argumentIds exampleSwapped)
   \<and> length (displayNames exampleSwapped) = length (argumentIds exampleSwapped)
   \<and> (6::nat) \<in> set [4, 5, 6, 7]
   \<and> btype (blocks exampleWorkspace 6) = ''argument_reporter_string_number''
   \<and> \<not> isShadow (blocks exampleWorkspace 6)
   \<and> fieldValue (blocks exampleWorkspace 6) ''VALUE'' = Some ''x''
   \<and> renamePair exampleSwapped [''a'', ''b''] [''x'', ''y''] ''x'' 0
   \<and> fieldValue (blocks (updateArgumentReporterNames exampleSwapped (Some [4, 5, 6, 7])
         [''a'', ''b''] [''x'', ''y''] exampleWorkspace) 6) ''VALUE'' = Some ''y''
   \<and> isShadow (blocks exampleWorkspace 4)
   \<and> fieldValue (blocks exampleWorkspace 4) ''VALUE'' = Some ''x''
   \<and> blocks (updateArgumentReporterNames exampleSwapped (Some [4, 5, 6, 7])
         [''a'', ''b''] [''x'', ''y''] exampleWorkspace) 4 = blocks exampleWorkspace 4
   \<and> (8::nat) \<notin> set [4, 5, 6, 7]
   \<and> fieldValue (blocks exampleWorkspace 8) ''VALUE'' = Some ''x''
   \<and> blocks (updateArgumentReporterNames exampleSwapped (Some [4, 5, 6, 7])
         [''a'', ''b''] [''x'', ''y''] exampleWorkspace) 8 = blocks exampleWorkspace 8"
proof -
  let ?after = "updateArgumentReporterNames exampleSwapped (Some [4, 5, 6, 7])
         [''a'', ''b''] [''x'', ''y''] exampleWorkspace"
  have h1: "[] \<notin> set (argumentIds exampleSwapped)"
    by (simp add: exampleSwapped_def examplePrototype_def)
  have h2: "length (displayNames exampleSwapped) = length (argumentIds exampleSwapped)"
    by (simp add: exampleSwapped_def examplePrototype_def)
  have d6: "(6::nat) \<in> set [4, 5, 6, 7]" by simp
  have t6: "btype (blocks exampleWorkspace 6) = ''argument_reporter_string_number''" by code_simp
  have s6: "\<not> isShadow (blocks exampleWorkspace 6)" by code_simp
  have l6: "fieldValue (blocks exampleWorkspace 6) ''VALUE'' = Some ''x''" by code_simp
  have rp: "renamePair exampleSwapped [''a'', ''b''] [''x'', ''y''] ''x'' 0"
    by (simp add: renamePair_def exampleSwapped_def examplePrototype_def at_def)
  have s4: "isShadow (blocks exampleWorkspace 4)" by code_simp
  have l4: "fieldValue (blocks exampleWorkspace 4) ''VALUE'' = Some ''x''" by code_simp
  have d8: "(8::nat) \<notin> set [4, 5, 6, 7]" by simp
  have l8: "fieldValue (blocks exampleWorkspace 8) ''VALUE'' = Some ''x''" by code_simp
  note inst = updateArgumentReporterNames_relabels [OF h1 h2, of "[4, 5, 6, 7]" exampleWorkspace
      "[''a'', ''b'']" "[''x'', ''y'']"]
  from inst d6 t6 s6 l6 rp
  obtain v j where vj: "fieldValue (blocks exampleWorkspace 6) ''VALUE'' = Some v"
    "renamePair exampleSwapped [''a'', ''b''] [''x'', ''y''] v j"
    "fieldValue (blocks ?after 6) ''VALUE'' = Some (displayNames exampleSwapped ! j)"
    by blast
  from vj(1) l6 have "v = ''x''" by simp
  with vj(2) have "j = 0"
    by (auto simp: renamePair_def exampleSwapped_def examplePrototype_def at_def less_Suc_eq
          split: if_splits)
  with vj(3) have v6: "fieldValue (blocks ?after 6) ''VALUE'' = Some ''y''"
    by (simp add: exampleSwapped_def)
  from inst s4 have k4: "blocks ?after 4 = blocks exampleWorkspace 4" by blast
  from inst d8 have k8: "blocks ?after 8 = blocks exampleWorkspace 8" by blast
  show ?thesis
    by (intro conjI; fact h1 h2 d6 t6 s6 l6 rp v6 s4 l4 k4 d8 l8 k8)
qed

subsection \<open>Renames are made against the names before the edit\<close>

lemma calls_distinct:
  assumes "distinct prevDisplayNames" and "distinct reps"
  shows "distinct suf \<Longrightarrow>
         distinct (map fst (renameCalls (nameChangesFrom suf i this prevArgIds prevDisplayNames reps ws)))"
proof (induction suf arbitrary: i)
  case Nil
  then show ?case by (simp add: renameCalls_Nil)
next
  case (Cons ident rest)
  show ?case
  proof (cases "ident = []")
    case True
    then show ?thesis by (simp add: renameCalls_Nil)
  next
    case False
    note step = nameChangesFrom_step [OF False, of rest i this prevArgIds prevDisplayNames reps ws]
    let ?tail = "renameCalls (nameChangesFrom rest (Suc i) this prevArgIds prevDisplayNames reps ws)"
    from Cons have tail: "distinct (map fst ?tail)" by simp
    show ?thesis
    proof (cases "indexOf prevArgIds ident")
      case None
      with step tail show ?thesis by simp
    next
      case (Some k)
      have disj: "b \<notin> fst ` set ?tail" if f: "fieldIs ws (at prevDisplayNames k) b" for b
      proof
        assume "b \<in> fst ` set ?tail"
        then obtain nw where "(b, nw) \<in> set ?tail" by auto
        from calls_sound [OF this] obtain j k' where j: "j < length rest"
          and k': "indexOf prevArgIds (rest ! j) = Some k'"
          and f': "fieldIs ws (at prevDisplayNames k') b" by blast
        from fieldIs_has_label [OF f] fieldIs_has_label [OF f']
        have same: "at prevDisplayNames k = at prevDisplayNames k'"
          and some: "at prevDisplayNames k \<noteq> None" by auto
        from some same have "k < length prevDisplayNames" "k' < length prevDisplayNames"
          by (auto simp: at_def split: if_splits)
        with same assms(1) have "k = k'" by (simp add: at_def nth_eq_iff_index_eq)
        with indexOf_Some [OF Some] indexOf_Some [OF k'] have "ident = rest ! j" by simp
        with j Cons.prems show False by auto
      qed
      have head: "distinct (filter (fieldIs ws (at prevDisplayNames k)) reps)"
        using assms(2) by simp
      let ?head = "filter (fieldIs ws (at prevDisplayNames k)) reps"
      let ?all = "renameCalls (nameChangesFrom (ident # rest) i this prevArgIds prevDisplayNames reps ws)"
      from disj have inter: "set ?head \<inter> set (map fst ?tail) = {}" by auto
      from step Some have "map fst ?all = ?head @ map fst ?tail \<or> map fst ?all = map fst ?tail"
        by (simp add: comp_def del: nameChangesFrom.simps)
      with head tail inter show ?thesis
        by (metis distinct_append)
    qed
  qed
qed

text \<open>
  Claim C10, as the code has it. The claim says that every candidate reporter is
  relabelled at most once. The blocks of every name change are chosen by their labels
  before the edit, and the labels are written afterwards, so no write is seen by a
  later match; yet a reporter whose label is the old name of two renamed arguments
  is in both lists. What holds when the old display names are pairwise distinct (the
  new IDs and the descendants being distinct too): \<^verbatim>\<open>setFieldValue\<close> is called at most
  once on a block, and every call gives a candidate reporter the new display name of
  an argument whose old display name was the reporter's label before the edit, which
  is its label afterwards.
\<close>

theorem renames_simultaneous:
  assumes "length (displayNames this) = length (argumentIds this)"
    and "distinct (argumentIds this)"
    and "distinct prevDisplayNames"
    and "distinct descendants"
  shows "updateArgumentReporterNames this (Some descendants) prevArgIds prevDisplayNames ws
           = applyRenames (renameCalls (nameChangesFrom (argumentIds this) 0 this prevArgIds
                prevDisplayNames (argReportersOf descendants ws) ws)) ws
       \<and> distinct (map fst (renameCalls (nameChangesFrom (argumentIds this) 0 this prevArgIds
                prevDisplayNames (argReportersOf descendants ws) ws)))
       \<and> (\<forall>b nw. (b, nw) \<in> set (renameCalls (nameChangesFrom (argumentIds this) 0 this prevArgIds
                prevDisplayNames (argReportersOf descendants ws) ws))
            \<longrightarrow> b \<in> set (argReportersOf descendants ws)
              \<and> (\<exists>v j. fieldValue (blocks ws b) ''VALUE'' = Some v
                     \<and> renamePair this prevArgIds prevDisplayNames v j
                     \<and> nw = Some (displayNames this ! j)
                     \<and> fieldValue (blocks (updateArgumentReporterNames this (Some descendants)
                           prevArgIds prevDisplayNames ws) b) ''VALUE''
                         = Some (displayNames this ! j)))"
proof -
  let ?reps = "argReportersOf descendants ws"
  let ?calls = "renameCalls (nameChangesFrom (argumentIds this) 0 this prevArgIds prevDisplayNames
                  ?reps ws)"
  let ?ws' = "updateArgumentReporterNames this (Some descendants) prevArgIds prevDisplayNames ws"
  have ws': "?ws' = applyRenames ?calls ws"
    by (simp add: updateArgumentReporterNames_def Let_def)
  have reps: "distinct ?reps" using assms(4) by (simp add: argReportersOf_def)
  have once: "distinct (map fst ?calls)"
    using calls_distinct [OF assms(3) reps assms(2)] .
  have each: "b \<in> set ?reps \<and> (\<exists>v j. fieldValue (blocks ws b) ''VALUE'' = Some v
                 \<and> renamePair this prevArgIds prevDisplayNames v j
                 \<and> nw = Some (displayNames this ! j)
                 \<and> fieldValue (blocks ?ws' b) ''VALUE'' = Some (displayNames this ! j))"
    if c: "(b, nw) \<in> set ?calls" for b nw
  proof -
    from calls_sound [OF c] obtain j k where j: "j < length (argumentIds this)"
      and k: "indexOf prevArgIds (argumentIds this ! j) = Some k"
      and ne: "at prevDisplayNames k \<noteq> at (displayNames this) j"
      and nw: "nw = at (displayNames this) j"
      and b: "b \<in> set ?reps" and f: "fieldIs ws (at prevDisplayNames k) b" by auto
    from fieldIs_has_label [OF f] obtain v where v: "at prevDisplayNames k = Some v"
      "fieldValue (blocks ws b) ''VALUE'' = Some v" by blast
    from j k v ne have rp: "renamePair this prevArgIds prevDisplayNames v j"
      by (auto simp: renamePair_def)
    from nw j assms(1) have nw': "nw = Some (displayNames this ! j)" by (simp add: at_Some)
    from applyRenames_distinct [OF once c [unfolded nw'], of ws]
    have "fieldValue (blocks ?ws' b) ''VALUE'' = Some (displayNames this ! j)" unfolding ws' .
    with b v rp nw' show ?thesis by blast
  qed
  from ws' once each show ?thesis by blast
qed

text \<open>
  The theorem on the prototype whose two display names were exchanged: one write for
  each of the reporters 6 and 7 in the body; the reporter that was \<open>x\<close> ends as \<open>y\<close>
  and the one that was \<open>y\<close> ends as \<open>x\<close>.
\<close>

theorem renames_simultaneous_witness:
  "length (displayNames exampleSwapped) = length (argumentIds exampleSwapped)
   \<and> distinct (argumentIds exampleSwapped) \<and> distinct [''x'', ''y''] \<and> distinct [4, 5, 6, 7 :: nat]
   \<and> renameCalls (nameChangesFrom (argumentIds exampleSwapped) 0 exampleSwapped [''a'', ''b'']
         [''x'', ''y''] (argReportersOf [4, 5, 6, 7] exampleWorkspace) exampleWorkspace)
       = [(6, Some ''y''), (7, Some ''x'')]
   \<and> distinct (map fst (renameCalls (nameChangesFrom (argumentIds exampleSwapped) 0
         exampleSwapped [''a'', ''b''] [''x'', ''y''] (argReportersOf [4, 5, 6, 7] exampleWorkspace)
         exampleWorkspace)))
   \<and> fieldValue (blocks (updateArgumentReporterNames exampleSwapped (Some [4, 5, 6, 7])
         [''a'', ''b''] [''x'', ''y''] exampleWorkspace) 6) ''VALUE'' = Some ''y''
   \<and> fieldValue (blocks (updateArgumentReporterNames exampleSwapped (Some [4, 5, 6, 7])
         [''a'', ''b''] [''x'', ''y''] exampleWorkspace) 7) ''VALUE'' = Some ''x''"
proof -
  have h1: "length (displayNames exampleSwapped) = length (argumentIds exampleSwapped)"
    by (simp add: exampleSwapped_def examplePrototype_def)
  have h2: "distinct (argumentIds exampleSwapped)"
    by (simp add: exampleSwapped_def examplePrototype_def)
  have h3: "distinct [''x'', ''y'']" by simp
  have h4: "distinct [4, 5, 6, 7 :: nat]" by simp
  have calls: "renameCalls (nameChangesFrom (argumentIds exampleSwapped) 0 exampleSwapped
         [''a'', ''b''] [''x'', ''y''] (argReportersOf [4, 5, 6, 7] exampleWorkspace) exampleWorkspace)
       = [(6, Some ''y''), (7, Some ''x'')]" by code_simp
  note inst = renames_simultaneous [OF h1 h2 h3 h4, of "[''a'', ''b'']" exampleWorkspace]
  from inst have once: "distinct (map fst (renameCalls (nameChangesFrom (argumentIds exampleSwapped) 0
         exampleSwapped [''a'', ''b''] [''x'', ''y''] (argReportersOf [4, 5, 6, 7] exampleWorkspace)
         exampleWorkspace)))" by blast
  have v6: "fieldValue (blocks (updateArgumentReporterNames exampleSwapped (Some [4, 5, 6, 7])
         [''a'', ''b''] [''x'', ''y''] exampleWorkspace) 6) ''VALUE'' = Some ''y''" by code_simp
  have v7: "fieldValue (blocks (updateArgumentReporterNames exampleSwapped (Some [4, 5, 6, 7])
         [''a'', ''b''] [''x'', ''y''] exampleWorkspace) 7) ''VALUE'' = Some ''x''" by code_simp
  from h1 h2 h3 h4 calls once v6 v7 show ?thesis by blast
qed

text \<open>
  The claim fails when two arguments with the same old display name \<open>x\<close> are renamed to
  \<open>y\<close> and \<open>z\<close>: the reporter 6, labelled \<open>x\<close>, is written twice and ends as \<open>z\<close>.
\<close>

theorem reporter_relabelled_twice_counterexample:
  "renameCalls (nameChangesFrom [''a'', ''b''] 0 (examplePrototype\<lparr>displayNames := [''y'', ''z'']\<rparr>)
      [''a'', ''b''] [''x'', ''x''] (argReportersOf [4, 5, 6] exampleWorkspace) exampleWorkspace)
     = [(6, Some ''y''), (6, Some ''z'')]
   \<and> fieldValue (blocks (updateArgumentReporterNames
        (examplePrototype\<lparr>displayNames := [''y'', ''z'']\<rparr>) (Some [4, 5, 6])
        [''a'', ''b''] [''x'', ''x''] exampleWorkspace) 6) ''VALUE'' = Some ''z''"
  by code_simp

section \<open>Notifications of cross-site propagation\<close>

lemma expectedEvents_Cons:
  "expectedEvents dt ((b, old) # before) ((b', new) # after) =
     (if dt (mutationToDom old) \<noteq> dt (mutationToDom new)
      then [\<lparr>changedBlock = b, oldValue = dt (mutationToDom old), newValue = dt (mutationToDom new)\<rparr>]
      else []) @ expectedEvents dt before after"
  by (simp add: expectedEvents_def)

lemma expectedEvents_Nil: "expectedEvents dt [] after = []"
  by (simp add: expectedEvents_def)

lemma callersForEach_result:
  "callersForEach dt pd m callers ws = (err, callers', ws', events) \<Longrightarrow>
   map fst callers' = map fst callers
   \<and> (err = None \<longrightarrow> events = expectedEvents dt callers callers')
   \<and> set events \<subseteq> set (expectedEvents dt callers callers')"
proof (induction callers arbitrary: ws err callers' ws' events)
  case Nil
  then show ?case by (auto simp: expectedEvents_Nil)
next
  case (Cons bc rest)
  obtain b c where bc: "bc = (b, c)" by (cases bc)
  obtain e1 c1 ws1 where d: "domToMutation c (pd b ws) m ws = (e1, c1, ws1)"
    by (metis prod_cases3)
  show ?case
  proof (cases e1)
    case (Some e)
    with Cons.prems bc d have "err = Some e" "callers' = (b, c1) # rest" "events = []"
      by auto
    then show ?thesis by (simp add: bc)
  next
    case None
    obtain err2 rest1 ws2 events2 where r:
      "callersForEach dt pd m rest ws1 = (err2, rest1, ws2, events2)" by (metis prod_cases4)
    from Cons.prems bc d None r have res: "err = err2" "callers' = (b, c1) # rest1"
      "events = (if dt (mutationToDom c) \<noteq> dt (mutationToDom c1)
                 then [\<lparr>changedBlock = b, oldValue = dt (mutationToDom c),
                        newValue = dt (mutationToDom c1)\<rparr>]
                 else []) @ events2"
      by (auto simp: Let_def)
    from Cons.IH [OF r] res show ?thesis
      by (auto simp: bc expectedEvents_Cons)
  qed
qed

lemma in_expectedEvents:
  "ev \<in> set (expectedEvents dt before after) \<longleftrightarrow>
     (\<exists>i. i < length before \<and> i < length after
        \<and> dt (mutationToDom (snd (before ! i))) \<noteq> dt (mutationToDom (snd (after ! i)))
        \<and> ev = \<lparr>changedBlock = fst (before ! i),
                 oldValue = dt (mutationToDom (snd (before ! i))),
                 newValue = dt (mutationToDom (snd (after ! i)))\<rparr>)"
  (is "?L \<longleftrightarrow> ?R")
proof -
  let ?F = "\<lambda>z. if dt (mutationToDom (snd (fst z))) \<noteq> dt (mutationToDom (snd (snd z)))
                        then [\<lparr>changedBlock = fst (fst z),
                               oldValue = dt (mutationToDom (snd (fst z))),
                               newValue = dt (mutationToDom (snd (snd z)))\<rparr>]
                        else []"
  have "?L \<longleftrightarrow> (\<exists>z \<in> set (zip before after). ev \<in> set (?F z))"
    unfolding expectedEvents_def by (simp only: set_concat set_map) blast
  also have "\<dots> \<longleftrightarrow> (\<exists>i. i < length before \<and> i < length after \<and> ev \<in> set (?F (before ! i, after ! i)))"
    unfolding set_zip by (simp only: min_less_iff_conj) blast
  also have "\<dots> \<longleftrightarrow> ?R"
  proof -
    have "ev \<in> set (?F (before ! i, after ! i)) \<longleftrightarrow>
            dt (mutationToDom (snd (before ! i))) \<noteq> dt (mutationToDom (snd (after ! i)))
            \<and> ev = \<lparr>changedBlock = fst (before ! i),
                 oldValue = dt (mutationToDom (snd (before ! i))),
                 newValue = dt (mutationToDom (snd (after ! i)))\<rparr>" for i
      by (cases "dt (mutationToDom (snd (before ! i))) = dt (mutationToDom (snd (after ! i)))")
         simp_all
    then show ?thesis by blast
  qed
  finally show ?thesis .
qed

text \<open>
  Claim C8, as the code has it. The claim says that a notification is emitted for a
  caller, or the prototype, if and only if its serialized mutation after the new
  mutation was applied differs from the one before. That leaves out the throw of
  \<^verbatim>\<open>domToMutation\<close>, which ends the loop after the block's fields have been
  overwritten and before the comparison. What holds: every notification is for a
  block of the list whose serialized mutation changed, with the two texts; and when no
  \<^verbatim>\<open>domToMutation\<close> throws, there is exactly one notification for every such block,
  in the order of the callers with the prototype last, and none for the others.
\<close>

theorem mutateCallersAndPrototype_events:
  assumes "mutateCallersAndPrototype domToText parentDescendants (Some d) (Some p) callers
             mutation ws = (err, callers', ws', events)"
  shows "map fst callers' = map fst (callers @ [p])
       \<and> (\<forall>ev \<in> set events. oldValue ev \<noteq> newValue ev
             \<and> (\<exists>i < length callers'.
                   changedBlock ev = fst ((callers @ [p]) ! i)
                   \<and> oldValue ev = domToText (mutationToDom (snd ((callers @ [p]) ! i)))
                   \<and> newValue ev = domToText (mutationToDom (snd (callers' ! i)))))
       \<and> (err = None \<longrightarrow>
            events = expectedEvents domToText (callers @ [p]) callers'
            \<and> (\<forall>i < length callers'.
                  \<lparr>changedBlock = fst ((callers @ [p]) ! i),
                   oldValue = domToText (mutationToDom (snd ((callers @ [p]) ! i))),
                   newValue = domToText (mutationToDom (snd (callers' ! i)))\<rparr> \<in> set events
                  \<longleftrightarrow> domToText (mutationToDom (snd ((callers @ [p]) ! i)))
                        \<noteq> domToText (mutationToDom (snd (callers' ! i)))))"
proof -
  let ?all = "callers @ [p]"
  from assms have run: "callersForEach domToText parentDescendants mutation ?all ws
                          = (err, callers', ws', events)"
    by (simp add: mutateCallersAndPrototype_def)
  from callersForEach_result [OF run] have fsts: "map fst callers' = map fst ?all"
    and ok: "err = None \<longrightarrow> events = expectedEvents domToText ?all callers'"
    and sub: "set events \<subseteq> set (expectedEvents domToText ?all callers')" by auto
  from fsts have len: "length callers' = length ?all" by (metis length_map)
  have sound: "oldValue ev \<noteq> newValue ev
             \<and> (\<exists>i < length callers'.
                   changedBlock ev = fst (?all ! i)
                   \<and> oldValue ev = domToText (mutationToDom (snd (?all ! i)))
                   \<and> newValue ev = domToText (mutationToDom (snd (callers' ! i))))"
    if "ev \<in> set events" for ev
  proof -
    from that sub have "ev \<in> set (expectedEvents domToText ?all callers')" by blast
    then obtain i where "i < length callers'"
      "domToText (mutationToDom (snd (?all ! i))) \<noteq> domToText (mutationToDom (snd (callers' ! i)))"
      "ev = \<lparr>changedBlock = fst (?all ! i),
                 oldValue = domToText (mutationToDom (snd (?all ! i))),
                 newValue = domToText (mutationToDom (snd (callers' ! i)))\<rparr>"
      unfolding in_expectedEvents by blast
    then show ?thesis by auto
  qed
  have exact: "\<lparr>changedBlock = fst (?all ! i),
                   oldValue = domToText (mutationToDom (snd (?all ! i))),
                   newValue = domToText (mutationToDom (snd (callers' ! i)))\<rparr> \<in> set events
                  \<longleftrightarrow> domToText (mutationToDom (snd (?all ! i)))
                        \<noteq> domToText (mutationToDom (snd (callers' ! i)))"
    if "err = None" and i: "i < length callers'" for i
  proof
    assume "\<lparr>changedBlock = fst (?all ! i),
                   oldValue = domToText (mutationToDom (snd (?all ! i))),
                   newValue = domToText (mutationToDom (snd (callers' ! i)))\<rparr> \<in> set events"
    from sound [OF this] show "domToText (mutationToDom (snd (?all ! i)))
                        \<noteq> domToText (mutationToDom (snd (callers' ! i)))" by simp
  next
    assume "domToText (mutationToDom (snd (?all ! i)))
                        \<noteq> domToText (mutationToDom (snd (callers' ! i)))"
    with i len have "\<lparr>changedBlock = fst (?all ! i),
                   oldValue = domToText (mutationToDom (snd (?all ! i))),
                   newValue = domToText (mutationToDom (snd (callers' ! i)))\<rparr>
           \<in> set (expectedEvents domToText ?all callers')"
      unfolding in_expectedEvents by (intro exI [of _ i]) simp
    with ok that(1) show "\<lparr>changedBlock = fst (?all ! i),
                   oldValue = domToText (mutationToDom (snd (?all ! i))),
                   newValue = domToText (mutationToDom (snd (callers' ! i)))\<rparr> \<in> set events"
      by simp
  qed
  show ?thesis
  proof (intro conjI impI allI ballI)
    show "map fst callers' = map fst (callers @ [p])" by (rule fsts)
  next
    fix ev assume "ev \<in> set events"
    from sound [OF this] show "oldValue ev \<noteq> newValue ev" by simp
  next
    fix ev assume "ev \<in> set events"
    from sound [OF this] show "\<exists>i < length callers'.
                   changedBlock ev = fst ((callers @ [p]) ! i)
                   \<and> oldValue ev = domToText (mutationToDom (snd ((callers @ [p]) ! i)))
                   \<and> newValue ev = domToText (mutationToDom (snd (callers' ! i)))" by simp
  next
    assume "err = None"
    with ok show "events = expectedEvents domToText (callers @ [p]) callers'" by simp
  next
    fix i assume "err = None" "i < length callers'"
    from exact [OF this] show "\<lparr>changedBlock = fst ((callers @ [p]) ! i),
                   oldValue = domToText (mutationToDom (snd ((callers @ [p]) ! i))),
                   newValue = domToText (mutationToDom (snd (callers' ! i)))\<rparr> \<in> set events
                  \<longleftrightarrow> domToText (mutationToDom (snd ((callers @ [p]) ! i)))
                        \<noteq> domToText (mutationToDom (snd (callers' ! i)))" .
  qed
qed

text \<open>
  The theorem on a call of \<^verbatim>\<open>f %s %b\<close> (block 40) and its prototype (block 21), when the
  first argument is renamed: the call's mutation is as before and the only
  notification is the prototype's.
\<close>

theorem mutateCallersAndPrototype_events_witness:
  "fst (mutateCallersAndPrototype exampleDomToText exampleParentDescendants (Some 20)
          (Some (21, examplePrototype)) [(40, exampleCall2)] exampleRename exampleWorkspace) = None
   \<and> snd (snd (snd (mutateCallersAndPrototype exampleDomToText exampleParentDescendants (Some 20)
          (Some (21, examplePrototype)) [(40, exampleCall2)] exampleRename exampleWorkspace)))
       = [\<lparr>changedBlock = 21, oldValue = ''f %s %babxy'', newValue = ''f %s %babpy''\<rparr>]
   \<and> snd (snd (snd (mutateCallersAndPrototype exampleDomToText exampleParentDescendants (Some 20)
          (Some (21, examplePrototype)) [(40, exampleCall2)] exampleRename exampleWorkspace)))
       = expectedEvents exampleDomToText ([(40, exampleCall2)] @ [(21, examplePrototype)])
           (fst (snd (mutateCallersAndPrototype exampleDomToText exampleParentDescendants (Some 20)
             (Some (21, examplePrototype)) [(40, exampleCall2)] exampleRename exampleWorkspace)))"
proof -
  let ?R = "mutateCallersAndPrototype exampleDomToText exampleParentDescendants (Some 20)
          (Some (21, examplePrototype)) [(40, exampleCall2)] exampleRename exampleWorkspace"
  have r: "?R = (fst ?R, fst (snd ?R), fst (snd (snd ?R)), snd (snd (snd ?R)))" by simp
  have ok: "fst ?R = None" by code_simp
  have ev: "snd (snd (snd ?R))
       = [\<lparr>changedBlock = 21, oldValue = ''f %s %babxy'', newValue = ''f %s %babpy''\<rparr>]"
    by code_simp
  from mutateCallersAndPrototype_events [OF r] ok
  have "snd (snd (snd ?R))
       = expectedEvents exampleDomToText ([(40, exampleCall2)] @ [(21, examplePrototype)])
           (fst (snd ?R))" by blast
  with ok ev show ?thesis by blast
qed

text \<open>
  The claim fails when the edit carries the procCode \<^verbatim>\<open>%x\<close>: applying it to the
  prototype throws, no notification is emitted, and the prototype's serialized mutation
  is no longer what it was.
\<close>

theorem no_event_on_throw_counterexample:
  "fst (mutateCallersAndPrototype exampleDomToText exampleParentDescendants (Some 20)
          (Some (21, examplePrototype)) [] exampleBadEdit exampleWorkspace)
     = Some (InvalidType ''x'')
   \<and> snd (snd (snd (mutateCallersAndPrototype exampleDomToText exampleParentDescendants (Some 20)
          (Some (21, examplePrototype)) [] exampleBadEdit exampleWorkspace))) = []
   \<and> exampleDomToText (mutationToDom (snd (hd (fst (snd (mutateCallersAndPrototype
          exampleDomToText exampleParentDescendants (Some 20)
          (Some (21, examplePrototype)) [] exampleBadEdit exampleWorkspace))))))
     \<noteq> exampleDomToText (mutationToDom examplePrototype)"
  by code_simp

section \<open>Reordering the arguments\<close>

subsection \<open>What a populate policy does to the workspace\<close>



















subsection \<open>The rebuild loop on distinct IDs\<close>


lemma valueNames_VALUE: "valueNames [VALUE v] = [name v]"
  by (simp add: valueNames_def)






subsection \<open>The connection map of a block with distinct slot IDs\<close>










text \<open>
  Without the acceptance of the connection checker a block is lost to its slot: on the
  example call block of \<^verbatim>\<open>f %s %b\<close>, when its two slot IDs change places and the
  procCode stays, the user block 2 of slot \<open>a\<close> meets the Boolean check of the second
  input and stays unattached; it is not disposed.
\<close>

lemma reorder_refused_by_checker:
  "\<not> reusable (exampleCall2\<lparr>argumentIds := [''b'', ''a'']\<rparr>) exampleWorkspace 2 BOOLEAN
   \<and> fst (updateDisplay (exampleCall2\<lparr>argumentIds := [''b'', ''a'']\<rparr>) exampleWorkspace) = None
   \<and> inputList (fst (snd (updateDisplay (exampleCall2\<lparr>argumentIds := [''b'', ''a'']\<rparr>)
         exampleWorkspace)))
       = [DUMMY ''f'',
          VALUE \<lparr>name = ''b'', check = None, targetBlock = Some 1, getShadowDom = None\<rparr>,
          DUMMY '''',
          VALUE \<lparr>name = ''a'', check = Some ''Boolean'', targetBlock = None, getShadowDom = None\<rparr>,
          DUMMY '''']
   \<and> \<not> disposed (blocks (snd (snd (updateDisplay (exampleCall2\<lparr>argumentIds := [''b'', ''a'']\<rparr>)
         exampleWorkspace))) 2)"
  by code_simp

end
